theory Spec2Isabelle
  imports Main
begin

section \<open>JavaScript strings\<close>

text \<open>
  A JavaScript string is a sequence of code units. The model covers strings whose code
  units are below 256, one \<^typ>\<open>char\<close> per code unit; e-mail addresses, domains, tokens
  and the redirect template are such strings.
\<close>

definition toLowerCase_char :: "char \<Rightarrow> char" where
  \<comment> \<open>\<open>String.prototype.toLowerCase\<close> on one code unit below 256: A-Z and the Latin-1
      capitals (U+00C0-U+00DE without the multiplication sign U+00D7) move up by 32.\<close>
  "toLowerCase_char c =
     (let n = (of_char c :: nat)
      in if (65 \<le> n \<and> n \<le> 90) \<or> (192 \<le> n \<and> n \<le> 222 \<and> n \<noteq> 215)
         then char_of (n + 32) else c)"

definition toLowerCase :: "string \<Rightarrow> string" where
  "toLowerCase s = map toLowerCase_char s"

fun js_split :: "char \<Rightarrow> string \<Rightarrow> string list" where
  \<comment> \<open>\<open>s.split(sep)\<close> for a one-character separator: never the empty list.\<close>
  "js_split sep [] = [[]]"
| "js_split sep (c # cs) =
     (if c = sep then [] # js_split sep cs
      else (case js_split sep cs of
              [] \<Rightarrow> [[c]]
            | p # ps \<Rightarrow> (c # p) # ps))"

fun starts_with :: "string \<Rightarrow> string \<Rightarrow> bool" where
  "starts_with [] s = True"
| "starts_with (p # ps) [] = False"
| "starts_with (p # ps) (c # cs) = (p = c \<and> starts_with ps cs)"

fun find_first :: "string \<Rightarrow> string \<Rightarrow> (string \<times> string) option" where
  \<comment> \<open>\<open>StringIndexOf\<close>: the text before and the text after the first occurrence of the
      search string, or \<open>None\<close> when it does not occur.\<close>
  "find_first pat [] = (if pat = [] then Some ([], []) else None)"
| "find_first pat (c # cs) =
     (if starts_with pat (c # cs) then Some ([], drop (length pat) (c # cs))
      else (case find_first pat cs of
              None \<Rightarrow> None
            | Some (front, rest) \<Rightarrow> Some (c # front, rest)))"

fun GetSubstitution :: "string \<Rightarrow> string \<Rightarrow> string \<Rightarrow> string \<Rightarrow> string" where
  \<comment> \<open>The replacement text of \<open>String.prototype.replace\<close> for a string pattern (no
      captures): in the replacement template \<open>$$\<close> is a dollar sign, \<open>$&\<close> the matched
      text, \<open>$`\<close> the text before the match, \<open>$'\<close> the text after it; every other
      character, a dollar sign before anything else included, is copied.\<close>
  "GetSubstitution matched front rest [] = []"
| "GetSubstitution matched front rest [c] = [c]"
| "GetSubstitution matched front rest (c # d # r) =
     (if c = CHR ''$'' then
        (if d = CHR ''$'' then CHR ''$'' # GetSubstitution matched front rest r
         else if d = CHR ''&'' then matched @ GetSubstitution matched front rest r
         else if d = CHR 0x60 then front @ GetSubstitution matched front rest r
         else if d = CHR 0x27 then rest @ GetSubstitution matched front rest r
         else c # GetSubstitution matched front rest (d # r))
      else c # GetSubstitution matched front rest (d # r))"

definition js_replace :: "string \<Rightarrow> string \<Rightarrow> string \<Rightarrow> string" where
  \<comment> \<open>\<open>s.replace(pat, repl)\<close> with a string pattern and a string replacement: the first
      occurrence only.\<close>
  "js_replace s pat repl =
     (case find_first pat s of
        None \<Rightarrow> s
      | Some (front, rest) \<Rightarrow> front @ GetSubstitution pat front rest repl @ rest)"

definition digit_char :: "nat \<Rightarrow> char" where
  "digit_char d = char_of (48 + d)"

fun toString_nat :: "nat \<Rightarrow> string" where
  \<comment> \<open>\<open>Number.prototype.toString\<close> on a non-negative integer: decimal, no leading zero.\<close>
  "toString_nat n =
     (if n < 10 then [digit_char n] else toString_nat (n div 10) @ [digit_char (n mod 10)])"

declare toString_nat.simps [simp del]

definition padStart :: "string \<Rightarrow> nat \<Rightarrow> string \<Rightarrow> string" where
  \<comment> \<open>\<open>s.padStart(len, fill)\<close>: the fill string repeated and cut to the missing length.\<close>
  "padStart s len fill =
     (if len \<le> length s \<or> fill = [] then s
      else take (len - length s) (concat (replicate (len - length s) fill)) @ s)"

definition truthy :: "string option \<Rightarrow> bool" where
  \<comment> \<open>A value that is a string or \<open>undefined\<close>: falsy when undefined or empty.\<close>
  "truthy v = (case v of None \<Rightarrow> False | Some s \<Rightarrow> s \<noteq> [])"

definition js_or :: "string option \<Rightarrow> string option \<Rightarrow> string option" where
  \<comment> \<open>\<open>a || b\<close>\<close>
  "js_or a b = (if truthy a then a else b)"

definition js_or_else :: "string option \<Rightarrow> string \<Rightarrow> string" where
  \<comment> \<open>\<open>a || 'literal'\<close>\<close>
  "js_or_else a b = (case a of None \<Rightarrow> b | Some s \<Rightarrow> if s = [] then b else s)"

section \<open>The e-mail pattern\<close>

text \<open>
  \<^verbatim>\<open>/^[^\s@]+@[^\s@]+\.[^\s@]+$/\<close> is a sequence of literals and of character classes
  under \<open>+\<close>, anchored at both ends; \<open>rx_match\<close> tries every way of cutting the string.
\<close>

datatype rx = Lit char | Plus "char \<Rightarrow> bool"

fun rx_match :: "rx list \<Rightarrow> string \<Rightarrow> bool" where
  "rx_match [] s = (s = [])"
| "rx_match (Lit c # r) [] = False"
| "rx_match (Lit c # r) (x # xs) = (x = c \<and> rx_match r xs)"
| "rx_match (Plus P # r) [] = False"
| "rx_match (Plus P # r) (x # xs) = (P x \<and> (rx_match r xs \<or> rx_match (Plus P # r) xs))"

definition WhiteSpace :: "char \<Rightarrow> bool" where
  \<comment> \<open>The class \<open>\s\<close> on code units below 256: tab, line feed, vertical tab, form feed,
      carriage return, space, no-break space.\<close>
  "WhiteSpace c = ((of_char c :: nat) \<in> set [9, 10, 11, 12, 13, 32, 160])"

definition not_space_at :: "char \<Rightarrow> bool" where
  \<comment> \<open>The class \<open>[^\s@]\<close>.\<close>
  "not_space_at c = (\<not> WhiteSpace c \<and> c \<noteq> CHR ''@'')"

definition emailRegex :: "rx list" where
  "emailRegex =
     [Plus not_space_at, Lit CHR ''@'', Plus not_space_at, Lit CHR ''.'', Plus not_space_at]"

definition emailRegex_test :: "string \<Rightarrow> bool" where
  "emailRegex_test email = rx_match emailRegex email"

section \<open>Errors, documents and the server's state\<close>

datatype error =
    TypeError           \<comment> \<open>a method called on \<open>undefined\<close>\<close>
  | MongoError string   \<comment> \<open>thrown by the database driver\<close>
  | SigningError string \<comment> \<open>thrown by the presigner\<close>

type_synonym fault = "error option"
  \<comment> \<open>What the backend does at one call: \<open>None\<close> it answers, \<open>Some e\<close> the call throws \<open>e\<close>.\<close>

record emailEntry =
  e_email :: string
  e_timestamp :: nat
  e_userAgent :: string
  e_ip :: string
  e_domain :: string

record domainRecord =
  d_domain :: string
  d_addedAt :: nat
  d_addedBy :: string

record tokenDoc =
  t_token :: string
  t_createdAt :: nat
  t_expireAt :: nat

record GetObjectCommand =
  Bucket :: "string option"
  Key :: string
  ResponseContentDisposition :: string

datatype call =
    Connect                          \<comment> \<open>\<open>client.connect()\<close> in verify-email.js\<close>
  | InsertEmail emailEntry           \<comment> \<open>\<open>insertOne\<close> on the e-mail log\<close>
  | FindDomain string                \<comment> \<open>\<open>findOne({ domain })\<close> on the allowed domains\<close>
  | ConnectDB                        \<comment> \<open>\<open>client.connect()\<close> in utils/mongodb.js\<close>
  | InsertToken tokenDoc             \<comment> \<open>\<open>insertOne\<close> on the tokens\<close>
  | CreateIndex                      \<comment> \<open>\<open>createIndex({ expireAt: 1 }, { expireAfterSeconds: 0 })\<close>\<close>
  | FindToken string                 \<comment> \<open>\<open>findOne({ token })\<close>\<close>
  | DeleteToken string               \<comment> \<open>\<open>deleteOne({ token })\<close>\<close>
  | Sign GetObjectCommand nat        \<comment> \<open>\<open>getSignedUrl(s3, command, { expiresIn })\<close>\<close>

text \<open>
  The state that outlives a request: the module variables of verify-email.js and of
  utils/mongodb.js, the three collections, and the calls made to the backends so far
  (times are milliseconds since the epoch).
\<close>

record world =
  cachedClient :: bool
  cachedDb :: bool
  emails :: "emailEntry list"
  allowed_domains :: "domainRecord list"
  db :: bool
  tokens :: "tokenDoc list"
  history :: "call list"

datatype response =
    Message nat string   \<comment> \<open>\<open>res.status(n).json({ message })\<close>\<close>
  | Validated string     \<comment> \<open>status 200, \<open>{ success: true, message, redirectUrl }\<close>\<close>
  | Text nat string      \<comment> \<open>\<open>res.status(n).send(text)\<close>\<close>
  | Empty nat            \<comment> \<open>\<open>res.status(n).end()\<close>\<close>
  | Redirect nat string  \<comment> \<open>\<open>res.writeHead(n, { Location })\<close>\<close>
  | Unhandled error      \<comment> \<open>the handler's promise rejects, nothing is written\<close>

definition called :: "call \<Rightarrow> world \<Rightarrow> world" where
  "called c w = w\<lparr>history := history w @ [c]\<rparr>"

section \<open>verify-email.js\<close>

definition default_REDIRECT_URL :: string where
  "default_REDIRECT_URL =
     ''https://{domain}.wartaterupdate.com/9e639fa927324ca2a294b73e2b58d1fc/?ext={email}''"

definition REDIRECT_URL :: "string option \<Rightarrow> string" where
  \<comment> \<open>\<open>process.env.REDIRECT_URL || '...'\<close>\<close>
  "REDIRECT_URL env = js_or_else env default_REDIRECT_URL"

definition connectToDatabase :: "fault \<Rightarrow> world \<Rightarrow> (error + unit) \<times> world" where
  "connectToDatabase f w =
     (if cachedClient w \<and> cachedDb w then (Inr (), w)
      else (case f of
              Some e \<Rightarrow> (Inl e, called Connect w)
            | None \<Rightarrow> (Inr (), (called Connect w)\<lparr>cachedClient := True, cachedDb := True\<rparr>)))"

definition getDomainFromEmail :: "string \<Rightarrow> error + string" where
  \<comment> \<open>\<open>email.split('@')[1].toLowerCase()\<close>\<close>
  "getDomainFromEmail email =
     (case js_split CHR ''@'' email of
        _ # part # _ \<Rightarrow> Inr (toLowerCase part)
      | _ \<Rightarrow> Inl TypeError)"

definition generateCleanDomainFromEmail :: "string \<Rightarrow> error + string" where
  "generateCleanDomainFromEmail email =
     (case js_split CHR ''@'' email of
        _ # part # _ \<Rightarrow>
          (let domain = toLowerCase part;
               domainParts = js_split CHR ''.'' domain;
               baseDomain = (if length domainParts > 1
                             then domainParts ! (length domainParts - 2)
                             else domainParts ! 0)
           in Inr baseDomain)
      | _ \<Rightarrow> Inl TypeError)"

definition generateRedirectUrl :: "string \<Rightarrow> string \<Rightarrow> error + string" where
  "generateRedirectUrl template email =
     (case generateCleanDomainFromEmail email of
        Inl e \<Rightarrow> Inl e
      | Inr cleanDomain \<Rightarrow>
          Inr (js_replace (js_replace template ''{domain}'' cleanDomain) ''{email}'' email))"

definition insertOne_email :: "fault \<Rightarrow> emailEntry \<Rightarrow> world \<Rightarrow> (error + unit) \<times> world" where
  "insertOne_email f entry w =
     (case f of
        Some e \<Rightarrow> (Inl e, called (InsertEmail entry) w)
      | None \<Rightarrow> (Inr (), (called (InsertEmail entry) w)\<lparr>emails := emails w @ [entry]\<rparr>))"

definition findOne_domain ::
  "fault \<Rightarrow> string \<Rightarrow> world \<Rightarrow> (error + domainRecord option) \<times> world" where
  "findOne_domain f name w =
     (case f of
        Some e \<Rightarrow> (Inl e, called (FindDomain name) w)
      | None \<Rightarrow> (Inr (find (\<lambda>r. d_domain r = name) (allowed_domains w)),
                 called (FindDomain name) w))"

definition logEmail ::
  "fault \<Rightarrow> fault \<Rightarrow> nat \<Rightarrow> string \<Rightarrow> string option \<Rightarrow> string option \<Rightarrow> world \<Rightarrow> bool \<times> world" where
  "logEmail f_connect f_insert now email userAgent ip w =
     (case connectToDatabase f_connect w of
        (Inl e, w1) \<Rightarrow> (False, w1)
      | (Inr _, w1) \<Rightarrow>
          (case getDomainFromEmail email of
             Inl e \<Rightarrow> (False, w1)
           | Inr domain \<Rightarrow>
               (let emailEntry =
                      \<lparr>e_email = email, e_timestamp = now,
                       e_userAgent = js_or_else userAgent ''Unknown'',
                       e_ip = js_or_else ip ''Unknown'',
                       e_domain = domain\<rparr>
                in (case insertOne_email f_insert emailEntry w1 of
                      (Inl e, w2) \<Rightarrow> (False, w2)
                    | (Inr _, w2) \<Rightarrow> (True, w2)))))"

definition isDomainAllowed :: "fault \<Rightarrow> fault \<Rightarrow> string \<Rightarrow> world \<Rightarrow> bool \<times> world" where
  "isDomainAllowed f_connect f_find domain w =
     (case connectToDatabase f_connect w of
        (Inl e, w1) \<Rightarrow> (False, w1)
      | (Inr _, w1) \<Rightarrow>
          (case findOne_domain f_find (toLowerCase domain) w1 of
             (Inl e, w2) \<Rightarrow> (False, w2)
           | (Inr domainRecord, w2) \<Rightarrow> (domainRecord \<noteq> None, w2)))"

record request =
  http_method :: string
  query_action :: "string option"
  query_token :: "string option"
  body :: "string option option"
    \<comment> \<open>\<open>None\<close>: \<open>req.body\<close> is undefined; \<open>Some e\<close>: an object whose \<open>email\<close> is \<open>e\<close>\<close>
  user_agent :: "string option"
  x_forwarded_for :: "string option"
  remoteAddress :: "string option"

record validate_faults =
  log_connect :: fault
  log_insert :: fault
  gate_connect :: fault
  gate_find :: fault

definition validate ::
  "string \<Rightarrow> nat \<Rightarrow> validate_faults \<Rightarrow> request \<Rightarrow> world \<Rightarrow> response \<times> world" where
  \<comment> \<open>The body of the route \<open>EMAIL VERIFICATION\<close>, its \<open>try\<close>/\<open>catch\<close> included.\<close>
  "validate template now fs req w =
     (let userAgent = user_agent req;
          ip = js_or (x_forwarded_for req) (remoteAddress req)
      in case body req of
           None \<Rightarrow> (Message 500 ''Unable to verify email. Please try again later.'', w)
         | Some field \<Rightarrow>
             (if \<not> truthy field then (Message 400 ''Please enter an email address'', w)
              else
                (let email = the field in
                 if \<not> emailRegex_test email then (Message 400 ''Invalid email format'', w)
                 else
                   (case logEmail (log_connect fs) (log_insert fs) now email userAgent ip w of
                      (logged, w1) \<Rightarrow>
                        (case getDomainFromEmail email of
                           Inl e \<Rightarrow>
                             (Message 500 ''Unable to verify email. Please try again later.'', w1)
                         | Inr domain \<Rightarrow>
                             (case isDomainAllowed (gate_connect fs) (gate_find fs) domain w1 of
                                (allowed, w2) \<Rightarrow>
                                  if \<not> allowed
                                  then (Message 400
                                          ''Please enter your work email address for verification'', w2)
                                  else
                                    (case generateRedirectUrl template email of
                                       Inl e \<Rightarrow>
                                         (Message 500
                                            ''Unable to verify email. Please try again later.'', w2)
                                     | Inr redirectUrl \<Rightarrow> (Validated redirectUrl, w2))))))))"

definition validate_route :: "request \<Rightarrow> bool" where
  \<comment> \<open>\<open>req.method === 'POST' && (!req.query.action || req.query.action === 'validate')\<close>\<close>
  "validate_route req =
     (http_method req = ''POST''
      \<and> (\<not> truthy (query_action req) \<or> query_action req = Some ''validate''))"

definition admin_route :: "request \<Rightarrow> bool" where
  \<comment> \<open>The guards of the administrative routes, which come before the validation route.\<close>
  "admin_route req =
     ((http_method req = ''GET''
        \<and> query_action req \<in> set (map Some [''admin'', ''uploadform'']))
      \<or> (http_method req = ''POST''
        \<and> query_action req \<in> set (map Some
              [''upload'', ''adddomain'', ''deletedomain'', ''bulkdeletedomain'',
               ''deletealldomains'', ''deleteemail'', ''bulkdeleteemail'',
               ''deleteallemails''])))"

definition handler ::
  "string \<Rightarrow> nat \<Rightarrow> validate_faults \<Rightarrow> request \<Rightarrow> world \<Rightarrow> (response \<times> world) option"
  where
  \<comment> \<open>The handler of verify-email.js. The administrative routes are not modelled:
      \<open>None\<close> stands for a request that one of them takes.\<close>
  "handler template now fs req w =
     (if http_method req = ''OPTIONS'' then Some (Empty 200, w)
      else if admin_route req then None
      else if validate_route req then Some (validate template now fs req w)
      else Some (Message 405 ''Method not allowed'', w))"

section \<open>utils/mongodb.js, store-token.js and download.js\<close>

record env =
  R2_BUCKET :: "string option"
  getSignedUrl :: "GetObjectCommand \<Rightarrow> nat \<Rightarrow> error + string"
    \<comment> \<open>the presigner of the storage backend, with the client's credentials\<close>

definition connectToDB :: "fault \<Rightarrow> world \<Rightarrow> (error + unit) \<times> world" where
  "connectToDB f w =
     (if db w then (Inr (), w)
      else (case f of
              Some e \<Rightarrow> (Inl e, called ConnectDB w)
            | None \<Rightarrow> (Inr (), (called ConnectDB w)\<lparr>db := True\<rparr>)))"

definition insertOne_token :: "fault \<Rightarrow> tokenDoc \<Rightarrow> world \<Rightarrow> (error + unit) \<times> world" where
  "insertOne_token f doc w =
     (case f of
        Some e \<Rightarrow> (Inl e, called (InsertToken doc) w)
      | None \<Rightarrow> (Inr (), (called (InsertToken doc) w)\<lparr>tokens := tokens w @ [doc]\<rparr>))"

definition createIndex :: "fault \<Rightarrow> world \<Rightarrow> (error + unit) \<times> world" where
  "createIndex f w =
     (case f of
        Some e \<Rightarrow> (Inl e, called CreateIndex w)
      | None \<Rightarrow> (Inr (), called CreateIndex w))"

definition findOne_token ::
  "fault \<Rightarrow> string \<Rightarrow> world \<Rightarrow> (error + tokenDoc option) \<times> world" where
  "findOne_token f token w =
     (case f of
        Some e \<Rightarrow> (Inl e, called (FindToken token) w)
      | None \<Rightarrow> (Inr (find (\<lambda>d. t_token d = token) (tokens w)), called (FindToken token) w))"

fun delete_first :: "('a \<Rightarrow> bool) \<Rightarrow> 'a list \<Rightarrow> 'a list" where
  "delete_first P [] = []"
| "delete_first P (x # xs) = (if P x then xs else x # delete_first P xs)"

definition deleteOne_token :: "fault \<Rightarrow> string \<Rightarrow> world \<Rightarrow> (error + unit) \<times> world" where
  "deleteOne_token f token w =
     (case f of
        Some e \<Rightarrow> (Inl e, called (DeleteToken token) w)
      | None \<Rightarrow> (Inr (), (called (DeleteToken token) w)
                           \<lparr>tokens := delete_first (\<lambda>d. t_token d = token) (tokens w)\<rparr>))"

record store_faults =
  st_connect :: fault
  st_insert :: fault
  st_index :: fault

definition store_token ::
  "nat \<Rightarrow> nat \<Rightarrow> store_faults \<Rightarrow> request \<Rightarrow> world \<Rightarrow> response \<times> world" where
  \<comment> \<open>The handler of store-token.js. It reads the clock twice while it builds the
      record: \<open>created\<close> is the reading of \<open>new Date()\<close> for \<open>createdAt\<close>, \<open>now\<close> the
      reading of \<open>Date.now()\<close>, taken after it, for \<open>expireAt\<close>.\<close>
  "store_token created now fs req w =
     (if \<not> truthy (query_token req) then (Text 400 ''Missing token.'', w)
      else
        (let token = the (query_token req) in
         case connectToDB (st_connect fs) w of
           (Inl e, w1) \<Rightarrow> (Unhandled e, w1)
         | (Inr _, w1) \<Rightarrow>
             (case insertOne_token (st_insert fs)
                     \<lparr>t_token = token, t_createdAt = created, t_expireAt = now + 60 * 1000\<rparr>
                     w1 of
                (Inl e, w2) \<Rightarrow> (Unhandled e, w2)
              | (Inr _, w2) \<Rightarrow>
                  (case createIndex (st_index fs) w2 of
                     (Inl e, w3) \<Rightarrow> (Unhandled e, w3)
                   | (Inr _, w3) \<Rightarrow> (Empty 204, w3)))))"

definition newFileName :: "nat \<Rightarrow> string" where
  \<comment> \<open>\<open>random\<close> is the value of \<open>Math.floor(Math.random() * 10000)\<close>.\<close>
  "newFileName random =
     (let suffix = padStart (toString_nat random) 4 ''0''
      in ''Acrobat_Reader_V112_'' @ suffix @ ''.msi'')"

definition command :: "env \<Rightarrow> nat \<Rightarrow> GetObjectCommand" where
  "command ev random =
     \<lparr>Bucket = R2_BUCKET ev,
      Key = ''Acrobat_Reader_V112.msi'',
      ResponseContentDisposition =
        ''attachment; filename='' @ [CHR 0x22] @ newFileName random @ [CHR 0x22]\<rparr>"

definition sign_redirect :: "env \<Rightarrow> nat \<Rightarrow> world \<Rightarrow> response \<times> world" where
  \<comment> \<open>From \<open>// Unique filename\<close> to the end of the handler of download.js; the
      \<open>console.log\<close> line writes to the process output only and is left out.\<close>
  "sign_redirect ev random w =
     (case getSignedUrl ev (command ev random) 60 of
        Inl e \<Rightarrow> (Unhandled e, called (Sign (command ev random) 60) w)
      | Inr signedUrl \<Rightarrow> (Redirect 302 signedUrl, called (Sign (command ev random) 60) w))"

record download_faults =
  dl_connect :: fault
  dl_find :: fault
  dl_delete :: fault

definition download ::
  "env \<Rightarrow> nat \<Rightarrow> download_faults \<Rightarrow> request \<Rightarrow> world \<Rightarrow> response \<times> world" where
  \<comment> \<open>The handler of download.js, run from start to end with no other request in between.\<close>
  "download ev random fs req w =
     (if \<not> truthy (query_token req) then (Text 400 ''Missing token.'', w)
      else
        (let token = the (query_token req) in
         case connectToDB (dl_connect fs) w of
           (Inl e, w1) \<Rightarrow> (Unhandled e, w1)
         | (Inr _, w1) \<Rightarrow>
             (case findOne_token (dl_find fs) token w1 of
                (Inl e, w2) \<Rightarrow> (Unhandled e, w2)
              | (Inr None, w2) \<Rightarrow> (Text 403 ''Invalid or expired token.'', w2)
              | (Inr (Some tokenDoc), w2) \<Rightarrow>
                  (case deleteOne_token (dl_delete fs) token w2 of
                     (Inl e, w3) \<Rightarrow> (Unhandled e, w3)
                   | (Inr _, w3) \<Rightarrow> sign_redirect ev random w3))))"

subsection \<open>The handler of download.js between its \<open>await\<close>s\<close>

text \<open>
  Each \<open>await\<close> of the handler hands control back, so another request may run between two
  of its backend calls. A task is the handler stopped before its next backend call.
\<close>

datatype task =
    Start request
  | BeforeFind string     \<comment> \<open>connected, \<open>findOne\<close> comes next\<close>
  | BeforeDelete string   \<comment> \<open>\<open>tokenDoc\<close> was found, \<open>deleteOne\<close> comes next\<close>
  | BeforeSign            \<comment> \<open>deleted, \<open>getSignedUrl\<close> comes next\<close>
  | Done response

fun dl_step :: "env \<Rightarrow> nat \<Rightarrow> download_faults \<Rightarrow> task \<Rightarrow> world \<Rightarrow> task \<times> world" where
  "dl_step ev random fs (Start req) w =
     (if \<not> truthy (query_token req) then (Done (Text 400 ''Missing token.''), w)
      else (case connectToDB (dl_connect fs) w of
              (Inl e, w1) \<Rightarrow> (Done (Unhandled e), w1)
            | (Inr _, w1) \<Rightarrow> (BeforeFind (the (query_token req)), w1)))"
| "dl_step ev random fs (BeforeFind token) w =
     (case findOne_token (dl_find fs) token w of
        (Inl e, w2) \<Rightarrow> (Done (Unhandled e), w2)
      | (Inr None, w2) \<Rightarrow> (Done (Text 403 ''Invalid or expired token.''), w2)
      | (Inr (Some tokenDoc), w2) \<Rightarrow> (BeforeDelete token, w2))"
| "dl_step ev random fs (BeforeDelete token) w =
     (case deleteOne_token (dl_delete fs) token w of
        (Inl e, w3) \<Rightarrow> (Done (Unhandled e), w3)
      | (Inr _, w3) \<Rightarrow> (BeforeSign, w3))"
| "dl_step ev random fs BeforeSign w =
     (case sign_redirect ev random w of (r, w4) \<Rightarrow> (Done r, w4))"
| "dl_step ev random fs (Done r) w = (Done r, w)"

fun dl_steps :: "nat \<Rightarrow> env \<Rightarrow> nat \<Rightarrow> download_faults \<Rightarrow> task \<Rightarrow> world \<Rightarrow> task \<times> world" where
  "dl_steps 0 ev random fs t w = (t, w)"
| "dl_steps (Suc k) ev random fs t w =
     (case dl_step ev random fs t w of (t1, w1) \<Rightarrow> dl_steps k ev random fs t1 w1)"

text \<open>
  Two requests A and B in flight: a schedule says whose backend call comes next
  (\<open>True\<close> for A).
\<close>

record redeem =
  rd_random :: nat
  rd_faults :: download_faults

fun interleave ::
  "env \<Rightarrow> redeem \<Rightarrow> redeem \<Rightarrow> bool list \<Rightarrow> task \<times> task \<times> world \<Rightarrow> task \<times> task \<times> world" where
  "interleave ev a b [] c = c"
| "interleave ev a b (True # sched) (ta, tb, w) =
     (case dl_step ev (rd_random a) (rd_faults a) ta w of
        (ta1, w1) \<Rightarrow> interleave ev a b sched (ta1, tb, w1))"
| "interleave ev a b (False # sched) (ta, tb, w) =
     (case dl_step ev (rd_random b) (rd_faults b) tb w of
        (tb1, w1) \<Rightarrow> interleave ev a b sched (ta, tb1, w1))"

subsection \<open>The store's background expiry\<close>

definition ttl_sweep :: "nat \<Rightarrow> world \<Rightarrow> world" where
  \<comment> \<open>Modelled from the spec: the background expiry of the token store, which belongs to
      the database and not to the repository (store-token.js only asks for it with
      \<open>createIndex\<close>); a sweep at clock reading \<open>now\<close> removes the records whose
      \<open>expireAt\<close> has passed.\<close>
  "ttl_sweep now w = w\<lparr>tokens := filter (\<lambda>d. now \<le> t_expireAt d) (tokens w)\<rparr>"

section \<open>Requests in sequence\<close>

datatype event =
    StoreToken nat store_faults request
      \<comment> \<open>with the second clock reading of the handler, that of \<open>Date.now()\<close>\<close>
  | Validate validate_faults request
  | Download nat download_faults request
  | Sweep

record config =
  redirect_template :: string
  backend :: env

fun step :: "config \<Rightarrow> nat \<times> event \<Rightarrow> world \<Rightarrow> response option \<times> world" where
  "step cfg (created, StoreToken now fs req) w =
     (case store_token created now fs req w of (r, w1) \<Rightarrow> (Some r, w1))"
| "step cfg (now, Validate fs req) w =
     (case validate (redirect_template cfg) now fs req w of (r, w1) \<Rightarrow> (Some r, w1))"
| "step cfg (now, Download random fs req) w =
     (case download (backend cfg) random fs req w of (r, w1) \<Rightarrow> (Some r, w1))"
| "step cfg (now, Sweep) w = (None, ttl_sweep now w)"

fun run :: "config \<Rightarrow> (nat \<times> event) list \<Rightarrow> world \<Rightarrow> response option list \<times> world" where
  "run cfg [] w = ([], w)"
| "run cfg (e # es) w =
     (case step cfg e w of
        (r, w1) \<Rightarrow> (case run cfg es w1 of (rs, w2) \<Rightarrow> (r # rs, w2)))"

section \<open>The specification's wording, for comparison\<close>

definition literal_replace :: "string \<Rightarrow> string \<Rightarrow> string \<Rightarrow> string" where
  \<comment> \<open>Literal replacement of the first occurrence, as the specification words it: the
      replacement text is inserted as it is.\<close>
  "literal_replace s pat repl =
     (case find_first pat s of
        None \<Rightarrow> s
      | Some (front, rest) \<Rightarrow> front @ repl @ rest)"

section \<open>Notions used in the statements\<close>

definition rejected :: response where
  "rejected = Message 400 ''Please enter your work email address for verification''"

definition logged_entry :: "nat \<Rightarrow> request \<Rightarrow> string \<Rightarrow> string \<Rightarrow> emailEntry" where
  "logged_entry now req email d =
     \<lparr>e_email = email, e_timestamp = now,
      e_userAgent = js_or_else (user_agent req) ''Unknown'',
      e_ip = js_or_else (js_or (x_forwarded_for req) (remoteAddress req)) ''Unknown'',
      e_domain = d\<rparr>"

definition issues :: "string \<Rightarrow> nat \<times> event \<Rightarrow> bool" where
  "issues token e = (case snd e of StoreToken now fs req \<Rightarrow> query_token req = Some token
                     | _ \<Rightarrow> False)"

section \<open>Sample data\<close>

definition sample_sign :: "GetObjectCommand \<Rightarrow> nat \<Rightarrow> error + string" where
  "sample_sign c expiresIn =
     Inr (''https://r2.example/'' @ Key c @ ''?X-Amz-Expires='' @ toString_nat expiresIn
          @ ''&response-content-disposition='' @ ResponseContentDisposition c)"

definition sample_env :: env where
  "sample_env = \<lparr>R2_BUCKET = Some ''downloads'', getSignedUrl = sample_sign\<rparr>"

definition sample_config :: config where
  "sample_config =
     \<lparr>redirect_template = ''https://{domain}.example.net/x?e={email}'', backend = sample_env\<rparr>"

definition sample_world :: world where
  \<comment> \<open>A fresh server: nothing cached, no token, no logged e-mail, two allowed domains.\<close>
  "sample_world =
     \<lparr>cachedClient = False, cachedDb = False, emails = [],
      allowed_domains = [\<lparr>d_domain = ''example.com'', d_addedAt = 0, d_addedBy = ''system''\<rparr>,
                         \<lparr>d_domain = ''mail.acme.co'', d_addedAt = 0, d_addedBy = ''system''\<rparr>],
      db = False, tokens = [], history = []\<rparr>"

definition get_request :: "string \<Rightarrow> request" where
  \<comment> \<open>\<open>GET ...?token=<value>\<close>\<close>
  "get_request v =
     \<lparr>http_method = ''GET'', query_action = None, query_token = Some v, body = None,
      user_agent = Some ''curl/8.0'', x_forwarded_for = None, remoteAddress = Some ''10.0.0.7''\<rparr>"

definition post_request :: "string \<Rightarrow> request" where
  \<comment> \<open>\<open>POST\<close> with the body \<open>{ email }\<close>\<close>
  "post_request e =
     \<lparr>http_method = ''POST'', query_action = None, query_token = None, body = Some (Some e),
      user_agent = Some ''curl/8.0'', x_forwarded_for = None, remoteAddress = Some ''10.0.0.7''\<rparr>"

definition no_store_faults :: store_faults where
  "no_store_faults = \<lparr>st_connect = None, st_insert = None, st_index = None\<rparr>"

definition no_download_faults :: download_faults where
  "no_download_faults = \<lparr>dl_connect = None, dl_find = None, dl_delete = None\<rparr>"

definition issued_world :: world where
  \<comment> \<open>The fresh server after \<open>abc123\<close> was issued once, both clock readings 0.\<close>
  "issued_world = snd (store_token 0 0 no_store_faults (get_request ''abc123'') sample_world)"

definition no_validate_faults :: validate_faults where
  "no_validate_faults =
     \<lparr>log_connect = None, log_insert = None, gate_connect = None, gate_find = None\<rparr>"

section \<open>Strings and the e-mail pattern: basic facts\<close>

lemma replicate_numeral: "replicate (numeral v) x = x # replicate (numeral v - 1) x"
  by (simp add: numeral_eq_Suc)

lemmas string_eval =
  toLowerCase_def toLowerCase_char_def digit_char_def padStart_def char_of_def bit_iff_odd
  replicate_numeral toString_nat.simps

lemmas handler_eval =
  download_def store_token_def connectToDB_def insertOne_token_def createIndex_def
  findOne_token_def deleteOne_token_def sign_redirect_def command_def newFileName_def
  called_def truthy_def Let_def

lemmas verify_eval =
  validate_def logEmail_def isDomainAllowed_def connectToDatabase_def insertOne_email_def
  findOne_domain_def getDomainFromEmail_def generateRedirectUrl_def
  generateCleanDomainFromEmail_def js_replace_def emailRegex_test_def emailRegex_def
  not_space_at_def WhiteSpace_def called_def truthy_def js_or_def js_or_else_def Let_def
  rejected_def logged_entry_def

lemmas sample_eval =
  sample_world_def issued_world_def sample_env_def sample_sign_def sample_config_def
  get_request_def post_request_def no_store_faults_def no_download_faults_def
  no_validate_faults_def

lemma toLowerCase_char_idem: "toLowerCase_char (toLowerCase_char c) = toLowerCase_char c"
  by (simp add: toLowerCase_char_def Let_def)

lemma toLowerCase_idem: "toLowerCase (toLowerCase s) = toLowerCase s"
  by (simp add: toLowerCase_def toLowerCase_char_idem)

lemma js_split_not_Nil: "js_split sep s \<noteq> []"
  by (induction s) (auto split: list.splits)

lemma js_split_append:
  "sep \<notin> set l \<Longrightarrow> js_split sep (l @ sep # rest) = l # js_split sep rest"
  by (induction l) (auto split: list.splits)

lemma js_split_no_sep: "sep \<notin> set s \<Longrightarrow> js_split sep s = [s]"
  by (induction s) (auto split: list.splits)

lemma rx_plus_lit:
  "rx_match (Plus P # Lit c # r) s \<Longrightarrow>
   \<exists>l rest. s = l @ c # rest \<and> l \<noteq> [] \<and> list_all P l \<and> rx_match r rest"
proof (induction s)
  case Nil
  then show ?case by simp
next
  case (Cons x xs)
  from Cons.prems have px: "P x" by simp
  from Cons.prems have "rx_match (Lit c # r) xs \<or> rx_match (Plus P # Lit c # r) xs" by simp
  then show ?case
  proof
    assume "rx_match (Lit c # r) xs"
    then obtain rest where "xs = c # rest" "rx_match r rest" by (cases xs) auto
    with px show ?thesis by (intro exI[of _ "[x]"] exI[of _ rest]) simp
  next
    assume "rx_match (Plus P # Lit c # r) xs"
    from Cons.IH[OF this] obtain l rest where
      "xs = l @ c # rest" "l \<noteq> []" "list_all P l" "rx_match r rest" by blast
    with px show ?thesis by (intro exI[of _ "x # l"] exI[of _ rest]) simp
  qed
qed

lemma rx_plus_end: "rx_match [Plus P] s \<Longrightarrow> s \<noteq> [] \<and> list_all P s"
  by (induction s) auto

lemma not_space_at_no_at: "list_all not_space_at s \<Longrightarrow> CHR ''@'' \<notin> set s"
  by (induction s) (auto simp: not_space_at_def)

lemma emailRegex_shape:
  assumes "emailRegex_test email"
  shows "\<exists>l d. email = l @ CHR ''@'' # d \<and> l \<noteq> [] \<and> CHR ''@'' \<notin> set l \<and> CHR ''@'' \<notin> set d"
proof -
  from assms have "rx_match (Plus not_space_at # Lit CHR ''@'' #
                     [Plus not_space_at, Lit CHR ''.'', Plus not_space_at]) email"
    by (simp add: emailRegex_test_def emailRegex_def)
  from rx_plus_lit[OF this] obtain l d where
    1: "email = l @ CHR ''@'' # d" "l \<noteq> []" "list_all not_space_at l"
       "rx_match (Plus not_space_at # Lit CHR ''.'' # [Plus not_space_at]) d" by blast
  from rx_plus_lit[OF 1(4)] obtain b c where
    2: "d = b @ CHR ''.'' # c" "list_all not_space_at b" "rx_match [Plus not_space_at] c" by blast
  from rx_plus_end[OF 2(3)] have "list_all not_space_at c" by simp
  with 2 have "CHR ''@'' \<notin> set d" by (simp add: not_space_at_no_at)
  moreover from 1(3) have "CHR ''@'' \<notin> set l" by (rule not_space_at_no_at)
  ultimately show ?thesis using 1(1,2) by blast
qed

lemma emailRegex_split:
  assumes "emailRegex_test email"
  shows "\<exists>l d. js_split CHR ''@'' email = [l, d] \<and> email = l @ CHR ''@'' # d"
proof -
  from emailRegex_shape[OF assms] obtain l d where
    "email = l @ CHR ''@'' # d" "CHR ''@'' \<notin> set l" "CHR ''@'' \<notin> set d" by blast
  then show ?thesis by (simp add: js_split_append js_split_no_sep)
qed

lemma emailRegex_getDomain:
  "emailRegex_test email \<Longrightarrow> \<exists>d. getDomainFromEmail email = Inr d \<and> toLowerCase d = d"
  using emailRegex_split[of email] by (auto simp: getDomainFromEmail_def toLowerCase_idem)

lemma emailRegex_redirect:
  "emailRegex_test email \<Longrightarrow> \<exists>url. generateRedirectUrl t email = Inr url"
  using emailRegex_split[of email]
  by (auto simp: generateRedirectUrl_def generateCleanDomainFromEmail_def Let_def)

section \<open>Redirect resolution\<close>

lemma GetSubstitution_plain:
  "CHR ''$'' \<notin> set repl \<Longrightarrow> GetSubstitution m f r repl = repl"
  by (induction m f r repl rule: GetSubstitution.induct) auto

lemma js_replace_plain:
  "CHR ''$'' \<notin> set repl \<Longrightarrow> js_replace s pat repl = literal_replace s pat repl"
  by (simp add: js_replace_def literal_replace_def GetSubstitution_plain split: option.splits)

lemma toLowerCase_char_dollar: "toLowerCase_char c = CHR ''$'' \<Longrightarrow> c = CHR ''$''"
proof (cases "(65 \<le> (of_char c :: nat) \<and> (of_char c :: nat) \<le> 90)
              \<or> (192 \<le> (of_char c :: nat) \<and> (of_char c :: nat) \<le> 222 \<and> (of_char c :: nat) \<noteq> 215)")
  case False
  then have "toLowerCase_char c = c"
    unfolding toLowerCase_char_def Let_def by (rule if_not_P)
  moreover assume "toLowerCase_char c = CHR ''$''"
  ultimately show ?thesis by simp
next
  case True
  then have "toLowerCase_char c = char_of ((of_char c :: nat) + 32)"
    unfolding toLowerCase_char_def Let_def by (rule if_P)
  moreover assume "toLowerCase_char c = CHR ''$''"
  ultimately have "char_of ((of_char c :: nat) + 32) = CHR ''$''" by simp
  then have "(of_char (char_of ((of_char c :: nat) + 32)) :: nat) = 36" by simp
  then have "((of_char c :: nat) + 32) mod 256 = 36" by (simp only: of_char_of)
  with True show ?thesis by auto
qed

lemma toLowerCase_dollar: "CHR ''$'' \<notin> set s \<Longrightarrow> CHR ''$'' \<notin> set (toLowerCase s)"
  by (auto simp: toLowerCase_def dest: toLowerCase_char_dollar[OF sym])

lemma js_split_parts: "p \<in> set (js_split sep s) \<Longrightarrow> set p \<subseteq> set s"
proof (induction s arbitrary: p)
  case Nil
  then show ?case by simp
next
  case (Cons c cs)
  show ?case
  proof (cases "c = sep")
    case True
    with Cons.prems have "p = [] \<or> p \<in> set (js_split sep cs)" by simp
    with Cons.IH show ?thesis by auto
  next
    case False
    obtain a list where al: "js_split sep cs = a # list"
      using js_split_not_Nil[of sep cs] by (cases "js_split sep cs") auto
    with False Cons.prems have "p = c # a \<or> p \<in> set list" by simp
    moreover from al have "set a \<subseteq> set cs" using Cons.IH[of a] by simp
    moreover from al have "q \<in> set list \<Longrightarrow> set q \<subseteq> set cs" for q using Cons.IH[of q] by simp
    ultimately show ?thesis by auto
  qed
qed

lemma cleanDomain_no_dollar:
  assumes "CHR ''$'' \<notin> set email" and "generateCleanDomainFromEmail email = Inr cleanDomain"
  shows "CHR ''$'' \<notin> set cleanDomain"
proof -
  from assms(2) obtain l part rest where
    sp: "js_split CHR ''@'' email = l # part # rest"
    by (auto simp: generateCleanDomainFromEmail_def split: list.splits)
  then have "part \<in> set (js_split CHR ''@'' email)" by simp
  from js_split_parts[OF this] assms(1) have "CHR ''$'' \<notin> set part" by auto
  then have nd: "CHR ''$'' \<notin> set (toLowerCase part)" by (rule toLowerCase_dollar)
  let ?parts = "js_split CHR ''.'' (toLowerCase part)"
  have ne: "?parts \<noteq> []" by (rule js_split_not_Nil)
  from assms(2) sp have
    cd: "cleanDomain = (if length ?parts > 1 then ?parts ! (length ?parts - 2) else ?parts ! 0)"
    by (simp add: generateCleanDomainFromEmail_def Let_def)
  have "cleanDomain \<in> set ?parts"
  proof (cases "length ?parts > 1")
    case True
    then have "length ?parts - 2 < length ?parts" by simp
    with cd True show ?thesis by (simp only: if_True nth_mem)
  next
    case False
    from ne have "0 < length ?parts" by simp
    with cd False show ?thesis by (simp only: if_False nth_mem)
  qed
  from js_split_parts[OF this] nd show ?thesis by auto
qed

lemma generateRedirectUrl_plain:
  assumes "CHR ''$'' \<notin> set email" and "generateCleanDomainFromEmail email = Inr cleanDomain"
  shows "generateRedirectUrl t email
           = Inr (literal_replace (literal_replace t ''{domain}'' cleanDomain) ''{email}'' email)"
  using assms cleanDomain_no_dollar[OF assms]
  by (simp add: generateRedirectUrl_def js_replace_plain)

lemma generateRedirectUrl_example:
  "generateRedirectUrl ''https://{domain}.example.net/x?e={email}'' ''user@mail.acme.co''
     = Inr ''https://acme.example.net/x?e=user@mail.acme.co''"
  by (simp add: generateRedirectUrl_def generateCleanDomainFromEmail_def js_replace_def
      Let_def toLowerCase_def toLowerCase_char_def)

text \<open>
  C5. The claim: the redirect is the template with \<open>{domain}\<close> replaced by the base label
  of the e-mail's domain and \<open>{email}\<close> replaced by the submitted e-mail verbatim, by
  literal replacement of the first occurrence. The code departs from it: the e-mail
  \<open>a$&b@mail.acme.co\<close> passes the format check, and where literal replacement gives
  \<open>...?e=a$&b@mail.acme.co\<close>, \<open>generateRedirectUrl\<close> gives \<open>...?e=a{email}b@mail.acme.co\<close>,
  since \<open>String.prototype.replace\<close> reads \<open>$&\<close> in the replacement as the matched text.
\<close>

theorem generateRedirectUrl_not_verbatim:
  "emailRegex_test ''a$&b@mail.acme.co''
   \<and> generateCleanDomainFromEmail ''a$&b@mail.acme.co'' = Inr ''acme''
   \<and> literal_replace
         (literal_replace ''https://{domain}.example.net/x?e={email}'' ''{domain}'' ''acme'')
         ''{email}'' ''a$&b@mail.acme.co''
       = ''https://acme.example.net/x?e=a$&b@mail.acme.co''
   \<and> generateRedirectUrl ''https://{domain}.example.net/x?e={email}'' ''a$&b@mail.acme.co''
       = Inr ''https://acme.example.net/x?e=a{email}b@mail.acme.co''"
  by (simp add: generateRedirectUrl_def generateCleanDomainFromEmail_def js_replace_def
      literal_replace_def Let_def toLowerCase_def toLowerCase_char_def
      emailRegex_test_def emailRegex_def not_space_at_def WhiteSpace_def)

section \<open>The domain gate\<close>

text \<open>
  C6. The membership test is case-insensitive: \<open>isDomainAllowed\<close> gives the same answer,
  and leaves the same state, for a domain and for its lowercase form, whatever the stored
  entries and whatever the backend does; in particular for \<open>Example.COM\<close> and
  \<open>example.com\<close>.
\<close>

theorem isDomainAllowed_case_insensitive:
  "isDomainAllowed f_connect f_find d w = isDomainAllowed f_connect f_find (toLowerCase d) w
   \<and> isDomainAllowed f_connect f_find ''Example.COM'' w
       = isDomainAllowed f_connect f_find ''example.com'' w"
proof -
  have low: "toLowerCase ''Example.COM'' = toLowerCase ''example.com''"
    by (simp add: string_eval)
  show ?thesis by (simp only: isDomainAllowed_def toLowerCase_idem low)
qed

theorem isDomainAllowed_case_insensitive_witness:
  "isDomainAllowed None None ''Example.COM'' sample_world
     = isDomainAllowed None None ''example.com'' sample_world
   \<and> fst (isDomainAllowed None None ''Example.COM'' sample_world) = True
   \<and> fst (isDomainAllowed None None ''Example.ORG'' sample_world) = False"
  using isDomainAllowed_case_insensitive [of None None "''Example.COM''" sample_world]
  by (simp add: isDomainAllowed_def connectToDatabase_def findOne_domain_def called_def
      sample_world_def string_eval)

text \<open>
  C7. The gate fails closed: when the connection is attempted and fails, or the lookup
  throws, \<open>isDomainAllowed\<close> answers \<open>False\<close>, also for a domain that is in the allowed set.
\<close>

theorem isDomainAllowed_fails_closed:
  "(\<not> (cachedClient w \<and> cachedDb w) \<and> f_connect = Some e) \<or> f_find = Some e \<Longrightarrow>
   fst (isDomainAllowed f_connect f_find domain w) = False"
  by (auto simp: isDomainAllowed_def connectToDatabase_def findOne_domain_def
      split: option.splits prod.splits sum.splits)

theorem isDomainAllowed_fails_closed_witness:
  "fst (isDomainAllowed None None ''example.com'' sample_world) = True
   \<and> fst (isDomainAllowed None (Some (MongoError ''timeout'')) ''example.com'' sample_world) = False
   \<and> fst (isDomainAllowed (Some (MongoError ''unreachable'')) None ''example.com'' sample_world)
       = False"
  using isDomainAllowed_fails_closed
          [of sample_world None "MongoError ''timeout''" "Some (MongoError ''timeout'')"
              "''example.com''"]
        isDomainAllowed_fails_closed
          [of sample_world "Some (MongoError ''unreachable'')" "MongoError ''unreachable''" None
              "''example.com''"]
  by (simp add: isDomainAllowed_def connectToDatabase_def findOne_domain_def called_def
      sample_world_def string_eval)

section \<open>Redemption: what the handler of download.js answers\<close>

lemma digit_char_digit: "d < 10 \<Longrightarrow> digit_char d \<in> set ''0123456789''"
proof -
  assume "d < 10"
  then have "d = 0 \<or> d = 1 \<or> d = 2 \<or> d = 3 \<or> d = 4 \<or> d = 5 \<or> d = 6
    \<or> d = 7 \<or> d = 8 \<or> d = 9" by arith
  then show ?thesis by (elim disjE) (simp_all add: digit_char_def char_of_def bit_iff_odd)
qed

lemma toString_nat_digits: "list_all (\<lambda>c. c \<in> set ''0123456789'') (toString_nat n)"
proof (induction n rule: toString_nat.induct)
  case (1 n)
  show ?case
  proof (cases "n < 10")
    case True
    then show ?thesis using digit_char_digit[of n] by (subst toString_nat.simps) simp
  next
    case False
    have "n mod 10 < 10" by simp
    from digit_char_digit[OF this] 1[OF False] False show ?thesis
      by (subst toString_nat.simps) simp
  qed
qed

lemma toString_nat_length: "n < 10000 \<Longrightarrow> length (toString_nat n) \<le> 4"
proof -
  assume n: "n < 10000"
  have l1: "length (toString_nat k) = 1" if "k < 10" for k
    using that by (subst toString_nat.simps) simp
  have l2: "length (toString_nat k) \<le> 2" if "k < 100" for k
    using that l1[of "k div 10"] l1[of k] by (subst toString_nat.simps) auto
  have l3: "length (toString_nat k) \<le> 3" if "k < 1000" for k
    using that l2[of "k div 10"] l1[of k] by (subst toString_nat.simps) auto
  show ?thesis
    using n l3[of "n div 10"] l1[of n] by (subst toString_nat.simps) auto
qed

lemma concat_replicate_single: "concat (replicate k [c]) = replicate k c"
  by (induction k) auto

lemma padStart_zero:
  "length s \<le> 4 \<Longrightarrow> padStart s 4 ''0'' = replicate (4 - length s) CHR ''0'' @ s"
  by (simp add: padStart_def concat_replicate_single)

lemma suffix_shape:
  assumes "random < 10000"
  shows "padStart (toString_nat random) 4 ''0''
           = replicate (4 - length (toString_nat random)) CHR ''0'' @ toString_nat random
         \<and> length (padStart (toString_nat random) 4 ''0'') = 4
         \<and> list_all (\<lambda>c. c \<in> set ''0123456789'') (padStart (toString_nat random) 4 ''0'')"
proof -
  from assms have len: "length (toString_nat random) \<le> 4" by (rule toString_nat_length)
  have eq: "padStart (toString_nat random) 4 ''0''
           = replicate (4 - length (toString_nat random)) CHR ''0'' @ toString_nat random"
    using len by (rule padStart_zero)
  have "list_all (\<lambda>c. c \<in> set ''0123456789'') (replicate k CHR ''0'')" for k
    by (induction k) auto
  with toString_nat_digits[of random] eq len show ?thesis by simp
qed

lemma download_Redirect:
  assumes "fst (download ev random fs req w) = Redirect n url"
  shows "n = 302 \<and> getSignedUrl ev (command ev random) 60 = Inr url
         \<and> truthy (query_token req)
         \<and> find (\<lambda>d. t_token d = the (query_token req)) (tokens w) \<noteq> None
         \<and> tokens (snd (download ev random fs req w))
             = delete_first (\<lambda>d. t_token d = the (query_token req)) (tokens w)"
  using assms
  by (auto simp: download_def connectToDB_def findOne_token_def deleteOne_token_def
      sign_redirect_def called_def Let_def
      split: if_splits option.splits prod.splits sum.splits)

lemma download_live:
  assumes "truthy (query_token req)"
    and "find (\<lambda>d. t_token d = the (query_token req)) (tokens w) = Some doc"
    and "db w \<or> dl_connect fs = None" and "dl_find fs = None" and "dl_delete fs = None"
    and "getSignedUrl ev (command ev random) 60 = Inr url"
  shows "fst (download ev random fs req w) = Redirect 302 url"
  using assms
  by (auto simp: download_def connectToDB_def findOne_token_def deleteOne_token_def
      sign_redirect_def called_def Let_def
      split: if_splits option.splits prod.splits sum.splits)

lemma download_absent:
  assumes "truthy (query_token req)"
    and "find (\<lambda>d. t_token d = the (query_token req)) (tokens w) = None"
  shows "fst (download ev random fs req w) =
           (if \<not> db w \<and> dl_connect fs \<noteq> None then Unhandled (the (dl_connect fs))
            else case dl_find fs of None \<Rightarrow> Text 403 ''Invalid or expired token.''
                 | Some e \<Rightarrow> Unhandled e)"
  using assms
  by (auto simp: download_def connectToDB_def findOne_token_def deleteOne_token_def
      sign_redirect_def called_def Let_def
      split: if_splits option.splits prod.splits sum.splits)

lemma download_as_steps:
  "dl_steps 4 ev random fs (Start req) w =
     (case download ev random fs req w of (r, w1) \<Rightarrow> (Done r, w1))"
  by (auto simp: numeral_eq_Suc download_def Let_def
      split: if_splits option.splits prod.splits sum.splits)

text \<open>
  C8. A redemption that succeeds answers 302; its \<open>Location\<close> is what the presigner
  returned, in this request, for the fixed key \<open>Acrobat_Reader_V112.msi\<close> with
  \<open>expiresIn\<close> 60, and the content disposition names the file
  \<open>Acrobat_Reader_V112_NNNN.msi\<close>, where \<open>NNNN\<close> is the draw in decimal, padded with
  zeros to four digits. The draw \<open>Math.floor(Math.random() * 10000)\<close> is taken as an
  integer from 0 to 9999.
\<close>

theorem download_success_response:
  assumes "random < 10000" and "fst (download ev random fs req w) = Redirect n url"
  shows "n = 302
     \<and> getSignedUrl ev (command ev random) 60 = Inr url
     \<and> Key (command ev random) = ''Acrobat_Reader_V112.msi''
     \<and> (\<exists>suffix. length suffix = 4 \<and> list_all (\<lambda>c. c \<in> set ''0123456789'') suffix
           \<and> suffix = replicate (4 - length (toString_nat random)) CHR ''0'' @ toString_nat random
           \<and> ResponseContentDisposition (command ev random)
               = ''attachment; filename='' @ [CHR 0x22] @ ''Acrobat_Reader_V112_'' @ suffix
                 @ ''.msi'' @ [CHR 0x22])
     \<and> last (history (snd (download ev random fs req w))) = Sign (command ev random) 60"
proof -
  from download_Redirect[OF assms(2)] have
    a: "n = 302" "getSignedUrl ev (command ev random) 60 = Inr url" by simp_all
  have k: "Key (command ev random) = ''Acrobat_Reader_V112.msi''" by (simp add: command_def)
  let ?suffix = "padStart (toString_nat random) 4 ''0''"
  from suffix_shape[OF assms(1)] have
    s: "?suffix = replicate (4 - length (toString_nat random)) CHR ''0'' @ toString_nat random"
       "length ?suffix = 4" "list_all (\<lambda>c. c \<in> set ''0123456789'') ?suffix" by blast+
  have d: "ResponseContentDisposition (command ev random)
             = ''attachment; filename='' @ [CHR 0x22] @ ''Acrobat_Reader_V112_'' @ ?suffix
               @ ''.msi'' @ [CHR 0x22]"
    by (simp add: command_def newFileName_def)
  have h: "last (history (snd (download ev random fs req w))) = Sign (command ev random) 60"
    using assms(2)
    by (auto simp: download_def connectToDB_def findOne_token_def deleteOne_token_def
        sign_redirect_def called_def Let_def
        split: if_splits option.splits prod.splits sum.splits)
  from s d have "\<exists>suffix. length suffix = 4 \<and> list_all (\<lambda>c. c \<in> set ''0123456789'') suffix
           \<and> suffix = replicate (4 - length (toString_nat random)) CHR ''0'' @ toString_nat random
           \<and> ResponseContentDisposition (command ev random)
               = ''attachment; filename='' @ [CHR 0x22] @ ''Acrobat_Reader_V112_'' @ suffix
                 @ ''.msi'' @ [CHR 0x22]"
    by (intro exI[of _ ?suffix] conjI)
  with a k h show ?thesis by blast
qed

lemma sample_download:
  "fst (download sample_env 42 no_download_faults (get_request ''abc123'') issued_world)
     = Redirect 302 (''https://r2.example/Acrobat_Reader_V112.msi?X-Amz-Expires=60''
         @ ''&response-content-disposition=attachment; filename='' @ [CHR 0x22]
         @ ''Acrobat_Reader_V112_0042.msi'' @ [CHR 0x22])"
  by (simp add: handler_eval sample_eval string_eval)

theorem download_success_response_witness:
  "(42::nat) < 10000
   \<and> fst (download sample_env 42 no_download_faults (get_request ''abc123'') issued_world)
       = Redirect 302 (''https://r2.example/Acrobat_Reader_V112.msi?X-Amz-Expires=60''
           @ ''&response-content-disposition=attachment; filename='' @ [CHR 0x22]
           @ ''Acrobat_Reader_V112_0042.msi'' @ [CHR 0x22])
   \<and> Key (command sample_env 42) = ''Acrobat_Reader_V112.msi''
   \<and> ResponseContentDisposition (command sample_env 42)
       = ''attachment; filename='' @ [CHR 0x22] @ ''Acrobat_Reader_V112_0042.msi'' @ [CHR 0x22]
   \<and> last (history (snd (download sample_env 42 no_download_faults (get_request ''abc123'')
                            issued_world)))
       = Sign (command sample_env 42) 60"
  using download_success_response
          [of 42 sample_env no_download_faults "get_request ''abc123''" issued_world 302
              "''https://r2.example/Acrobat_Reader_V112.msi?X-Amz-Expires=60''
               @ ''&response-content-disposition=attachment; filename='' @ [CHR 0x22]
               @ ''Acrobat_Reader_V112_0042.msi'' @ [CHR 0x22]"]
        sample_download
  by (simp add: command_def newFileName_def string_eval)

section \<open>E-mail validation: what the route answers and what it changes\<close>

lemma handler_validate:
  "validate_route req \<Longrightarrow> handler t now fs req w = Some (validate t now fs req w)"
  by (auto simp: handler_def validate_route_def admin_route_def truthy_def)

lemma validate_skip:
  assumes "\<not> (\<exists>email. body req = Some (Some email) \<and> emailRegex_test email)"
  shows "snd (validate t now fs req w) = w"
  using assms
  by (auto simp: validate_def truthy_def Let_def split: option.splits prod.splits sum.splits)

lemma emailRegex_test_Nil: "\<not> emailRegex_test []"
  by (simp add: emailRegex_test_def emailRegex_def)

lemma validate_wellformed:
  assumes "body req = Some (Some email)" and "emailRegex_test email"
    and "getDomainFromEmail email = Inr d" and "generateRedirectUrl t email = Inr url"
  shows "validate t now fs req w =
     (case logEmail (log_connect fs) (log_insert fs) now email (user_agent req)
             (js_or (x_forwarded_for req) (remoteAddress req)) w of
        (logged, w1) \<Rightarrow>
          (case isDomainAllowed (gate_connect fs) (gate_find fs) d w1 of
             (allowed, w2) \<Rightarrow> (if allowed then Validated url else rejected, w2)))"
proof -
  from assms(2) have "email \<noteq> []" using emailRegex_test_Nil by auto
  with assms show ?thesis
    by (simp add: validate_def truthy_def Let_def rejected_def split: prod.splits)
qed

lemma logEmail_frame:
  "tokens (snd (logEmail fc fi now email ua ip w)) = tokens w
   \<and> db (snd (logEmail fc fi now email ua ip w)) = db w
   \<and> allowed_domains (snd (logEmail fc fi now email ua ip w)) = allowed_domains w"
  by (simp add: logEmail_def connectToDatabase_def insertOne_email_def called_def Let_def
      split: option.splits sum.splits)

lemma logEmail_cached:
  "(cachedClient (snd (logEmail fc fi now email ua ip w))
      \<and> cachedDb (snd (logEmail fc fi now email ua ip w)))
   = (cachedClient w \<and> cachedDb w \<or> fc = None)"
  by (auto simp: logEmail_def connectToDatabase_def insertOne_email_def called_def Let_def
      split: option.splits sum.splits)

lemma logEmail_emails:
  assumes "getDomainFromEmail email = Inr d"
  shows "emails (snd (logEmail fc fi now email ua ip w)) =
     (if (cachedClient w \<and> cachedDb w \<or> fc = None) \<and> fi = None
      then emails w @ [\<lparr>e_email = email, e_timestamp = now,
                        e_userAgent = js_or_else ua ''Unknown'', e_ip = js_or_else ip ''Unknown'',
                        e_domain = d\<rparr>]
      else emails w)"
  using assms
  by (auto simp: logEmail_def connectToDatabase_def insertOne_email_def called_def Let_def
      split: option.splits sum.splits)

lemma logEmail_history:
  assumes "getDomainFromEmail email = Inr d"
  shows "history (snd (logEmail fc fi now email ua ip w)) =
     history w @ (if cachedClient w \<and> cachedDb w then [] else [Connect])
       @ (if cachedClient w \<and> cachedDb w \<or> fc = None
          then [InsertEmail \<lparr>e_email = email, e_timestamp = now,
                  e_userAgent = js_or_else ua ''Unknown'', e_ip = js_or_else ip ''Unknown'',
                  e_domain = d\<rparr>]
          else [])"
  using assms
  by (auto simp: logEmail_def connectToDatabase_def insertOne_email_def called_def Let_def
      split: option.splits sum.splits)

lemma isDomainAllowed_frame:
  "tokens (snd (isDomainAllowed fc ff d w)) = tokens w
   \<and> db (snd (isDomainAllowed fc ff d w)) = db w
   \<and> allowed_domains (snd (isDomainAllowed fc ff d w)) = allowed_domains w
   \<and> emails (snd (isDomainAllowed fc ff d w)) = emails w"
  by (simp add: isDomainAllowed_def connectToDatabase_def findOne_domain_def called_def
      split: option.splits)

lemma isDomainAllowed_answer:
  "fst (isDomainAllowed fc ff d w) =
     ((cachedClient w \<and> cachedDb w \<or> fc = None) \<and> ff = None
      \<and> find (\<lambda>r. d_domain r = toLowerCase d) (allowed_domains w) \<noteq> None)"
  by (auto simp: isDomainAllowed_def connectToDatabase_def findOne_domain_def called_def
      split: option.splits)

lemma isDomainAllowed_history:
  "history (snd (isDomainAllowed fc ff d w)) =
     history w @ (if cachedClient w \<and> cachedDb w then [] else [Connect])
       @ (if cachedClient w \<and> cachedDb w \<or> fc = None then [FindDomain (toLowerCase d)] else [])"
  by (auto simp: isDomainAllowed_def connectToDatabase_def findOne_domain_def called_def
      split: option.splits)

lemma validate_response:
  assumes "body req = Some (Some email)" and "emailRegex_test email"
    and "getDomainFromEmail email = Inr d" and "generateRedirectUrl t email = Inr url"
  shows "fst (validate t now fs req w) =
     (if (cachedClient w \<and> cachedDb w \<or> log_connect fs = None \<or> gate_connect fs = None)
         \<and> gate_find fs = None
         \<and> find (\<lambda>r. d_domain r = d) (allowed_domains w) \<noteq> None
      then Validated url else rejected)"
proof -
  from emailRegex_getDomain[OF assms(2)] assms(3) have low: "toLowerCase d = d" by auto
  let ?l = "logEmail (log_connect fs) (log_insert fs) now email (user_agent req)
             (js_or (x_forwarded_for req) (remoteAddress req)) w"
  have "fst (validate t now fs req w) =
          (if fst (isDomainAllowed (gate_connect fs) (gate_find fs) d (snd ?l))
           then Validated url else rejected)"
    by (simp add: validate_wellformed[OF assms] split: prod.splits)
  also have "fst (isDomainAllowed (gate_connect fs) (gate_find fs) d (snd ?l)) =
      ((cachedClient w \<and> cachedDb w \<or> log_connect fs = None \<or> gate_connect fs = None)
         \<and> gate_find fs = None
         \<and> find (\<lambda>r. d_domain r = d) (allowed_domains w) \<noteq> None)"
    unfolding isDomainAllowed_answer logEmail_cached low
    using logEmail_frame[of "log_connect fs" "log_insert fs" now email "user_agent req"
             "js_or (x_forwarded_for req) (remoteAddress req)" w]
    by auto
  finally show ?thesis .
qed

lemma validate_frame:
  "tokens (snd (validate t now fs req w)) = tokens w
   \<and> db (snd (validate t now fs req w)) = db w
   \<and> allowed_domains (snd (validate t now fs req w)) = allowed_domains w"
proof (cases "\<exists>email. body req = Some (Some email) \<and> emailRegex_test email")
  case False
  then show ?thesis by (simp add: validate_skip)
next
  case True
  then obtain email where e: "body req = Some (Some email)" "emailRegex_test email" by blast
  from emailRegex_getDomain[OF e(2)] obtain d where d: "getDomainFromEmail email = Inr d" by blast
  from emailRegex_redirect[OF e(2)] obtain url where u: "generateRedirectUrl t email = Inr url"
    by blast
  show ?thesis
    using logEmail_frame isDomainAllowed_frame
    by (simp add: validate_wellformed[OF e d u] split: prod.splits)
       (metis snd_conv)
qed

lemma validate_skip_any:
  assumes "\<not> (\<exists>email. body req = Some (Some email) \<and> emailRegex_test email)"
  shows "validate t now fs req w = validate t now fs' req w"
  using assms
  by (auto simp: validate_def truthy_def Let_def split: option.splits prod.splits sum.splits)

lemma validate_effect:
  assumes "body req = Some (Some email)" and "emailRegex_test email"
    and "getDomainFromEmail email = Inr d"
    and "cachedClient w \<and> cachedDb w \<or> log_connect fs = None" and "log_insert fs = None"
  shows "emails (snd (validate t now fs req w)) = emails w @ [logged_entry now req email d]
     \<and> history (snd (validate t now fs req w))
         = history w @ (if cachedClient w \<and> cachedDb w then [] else [Connect])
             @ [InsertEmail (logged_entry now req email d), FindDomain d]"
proof -
  from emailRegex_getDomain[OF assms(2)] assms(3) have low: "toLowerCase d = d" by auto
  from emailRegex_redirect[OF assms(2)] obtain url where u: "generateRedirectUrl t email = Inr url"
    by blast
  let ?l = "logEmail (log_connect fs) (log_insert fs) now email (user_agent req)
             (js_or (x_forwarded_for req) (remoteAddress req)) w"
  have s: "snd (validate t now fs req w)
             = snd (isDomainAllowed (gate_connect fs) (gate_find fs) d (snd ?l))"
    by (simp add: validate_wellformed[OF assms(1,2,3) u] split: prod.splits)
  have c: "cachedClient (snd ?l) \<and> cachedDb (snd ?l)"
    using assms(4) by (simp add: logEmail_cached)
  have e: "emails (snd ?l) = emails w @ [logged_entry now req email d]"
    using assms(4,5) by (simp add: logEmail_emails[OF assms(3)] logged_entry_def)
  have h: "history (snd ?l) = history w @ (if cachedClient w \<and> cachedDb w then [] else [Connect])
             @ [InsertEmail (logged_entry now req email d)]"
    using assms(4) by (simp add: logEmail_history[OF assms(3)] logged_entry_def)
  show ?thesis
    unfolding s using c e h
    by (simp add: isDomainAllowed_frame isDomainAllowed_history low)
qed

lemma validate_response_any_insert:
  "fst (validate t now (fs\<lparr>log_insert := x\<rparr>) req w) = fst (validate t now fs req w)"
proof (cases "\<exists>email. body req = Some (Some email) \<and> emailRegex_test email")
  case False
  then show ?thesis using validate_skip_any[where fs = "fs\<lparr>log_insert := x\<rparr>" and fs' = fs] by simp
next
  case True
  then obtain email where e: "body req = Some (Some email)" "emailRegex_test email" by blast
  from emailRegex_getDomain[OF e(2)] obtain d where d: "getDomainFromEmail email = Inr d" by blast
  from emailRegex_redirect[OF e(2)] obtain url where u: "generateRedirectUrl t email = Inr url"
    by blast
  show ?thesis by (simp add: validate_response[OF e d u])
qed

lemma validate_response_any_log:
  assumes "gate_connect fs = None"
  shows "fst (validate t now (fs\<lparr>log_connect := y, log_insert := x\<rparr>) req w)
           = fst (validate t now fs req w)"
proof (cases "\<exists>email. body req = Some (Some email) \<and> emailRegex_test email")
  case False
  then show ?thesis
    using validate_skip_any[where fs = "fs\<lparr>log_connect := y, log_insert := x\<rparr>" and fs' = fs]
    by simp
next
  case True
  then obtain email where e: "body req = Some (Some email)" "emailRegex_test email" by blast
  from emailRegex_getDomain[OF e(2)] obtain d where d: "getDomainFromEmail email = Inr d" by blast
  from emailRegex_redirect[OF e(2)] obtain url where u: "generateRedirectUrl t email = Inr url"
    by blast
  show ?thesis using assms by (simp add: validate_response[OF e d u])
qed

text \<open>
  C10. An e-mail that passes the format check is logged before the allowed domains are
  looked up, whether or not its domain is then accepted: when the logging calls succeed
  the route appends one entry (e-mail, clock reading, user agent or \<open>Unknown\<close>, address or
  \<open>Unknown\<close>, lowercase domain) to the log, and the backend sees the \<open>insertOne\<close> before the
  \<open>findOne\<close> on the domains. A request without a well-formed e-mail changes nothing and
  calls no backend. The answer does not depend on whether the \<open>insertOne\<close> of the log
  throws, nor, when the gate's own connection succeeds, on whether the log could connect.
\<close>

theorem validate_logs_before_gate:
  "(body req = Some (Some email) \<and> emailRegex_test email \<and> getDomainFromEmail email = Inr d
      \<and> (cachedClient w \<and> cachedDb w \<or> log_connect fs = None) \<and> log_insert fs = None
     \<longrightarrow> emails (snd (validate t now fs req w)) = emails w @ [logged_entry now req email d]
        \<and> history (snd (validate t now fs req w))
            = history w @ (if cachedClient w \<and> cachedDb w then [] else [Connect])
                @ [InsertEmail (logged_entry now req email d), FindDomain d])
   \<and> (\<not> (\<exists>email. body req = Some (Some email) \<and> emailRegex_test email)
       \<longrightarrow> snd (validate t now fs req w) = w)
   \<and> fst (validate t now (fs\<lparr>log_insert := x\<rparr>) req w) = fst (validate t now fs req w)
   \<and> (gate_connect fs = None
       \<longrightarrow> fst (validate t now (fs\<lparr>log_connect := y, log_insert := x\<rparr>) req w)
            = fst (validate t now fs req w))"
  using validate_effect[where req = req and email = email and d = d and w = w and fs = fs
      and t = t and now = now]
    validate_skip[where req = req and t = t and now = now and fs = fs and w = w]
    validate_response_any_insert[where t = t and now = now and fs = fs and x = x and req = req
      and w = w]
    validate_response_any_log[where t = t and now = now and fs = fs and x = x and y = y
      and req = req and w = w]
  by blast

lemma sample_validate_rejected:
  "validate ''https://{domain}.example.net/x?e={email}'' 5 no_validate_faults
      (post_request ''user@Other.org'') sample_world
   = (rejected,
      sample_world\<lparr>cachedClient := True, cachedDb := True,
        emails := [\<lparr>e_email = ''user@Other.org'', e_timestamp = 5, e_userAgent = ''curl/8.0'',
                    e_ip = ''10.0.0.7'', e_domain = ''other.org''\<rparr>],
        history := [Connect,
                    InsertEmail \<lparr>e_email = ''user@Other.org'', e_timestamp = 5,
                      e_userAgent = ''curl/8.0'', e_ip = ''10.0.0.7'', e_domain = ''other.org''\<rparr>,
                    FindDomain ''other.org'']\<rparr>)"
  by (simp add: verify_eval sample_eval string_eval)


theorem validate_logs_before_gate_witness:
  "emailRegex_test ''user@Other.org''
   \<and> getDomainFromEmail ''user@Other.org'' = Inr ''other.org''
   \<and> logged_entry 5 (post_request ''user@Other.org'') ''user@Other.org'' ''other.org''
       = \<lparr>e_email = ''user@Other.org'', e_timestamp = 5, e_userAgent = ''curl/8.0'',
          e_ip = ''10.0.0.7'', e_domain = ''other.org''\<rparr>
   \<and> fst (validate ''https://{domain}.example.net/x?e={email}'' 5 no_validate_faults
            (post_request ''user@Other.org'') sample_world) = rejected
   \<and> emails (snd (validate ''https://{domain}.example.net/x?e={email}'' 5 no_validate_faults
                    (post_request ''user@Other.org'') sample_world))
       = [logged_entry 5 (post_request ''user@Other.org'') ''user@Other.org'' ''other.org'']
   \<and> history (snd (validate ''https://{domain}.example.net/x?e={email}'' 5 no_validate_faults
                     (post_request ''user@Other.org'') sample_world))
       = [Connect,
          InsertEmail (logged_entry 5 (post_request ''user@Other.org'') ''user@Other.org''
                         ''other.org''),
          FindDomain ''other.org'']
   \<and> fst (validate ''https://{domain}.example.net/x?e={email}'' 5
            (no_validate_faults\<lparr>log_insert := Some (MongoError ''write failed'')\<rparr>)
            (post_request ''user@Other.org'') sample_world) = rejected
   \<and> snd (validate ''https://{domain}.example.net/x?e={email}'' 5 no_validate_faults
            (post_request ''user at other.org'') sample_world) = sample_world"
proof -
  let ?T = "''https://{domain}.example.net/x?e={email}''"
  let ?req = "post_request ''user@Other.org''"
  have b: "body ?req = Some (Some ''user@Other.org'')" by (simp add: post_request_def)
  have e: "emailRegex_test ''user@Other.org''" by (simp add: verify_eval)
  have d: "getDomainFromEmail ''user@Other.org'' = Inr ''other.org''"
    by (simp add: verify_eval string_eval)
  have c: "log_connect no_validate_faults = None" "log_insert no_validate_faults = None"
    by (simp_all add: no_validate_faults_def)
  have n: "\<not> (\<exists>email. body (post_request ''user at other.org'') = Some (Some email)
                 \<and> emailRegex_test email)"
    by (simp add: post_request_def verify_eval)
  have l: "logged_entry 5 ?req ''user@Other.org'' ''other.org''
       = \<lparr>e_email = ''user@Other.org'', e_timestamp = 5, e_userAgent = ''curl/8.0'',
          e_ip = ''10.0.0.7'', e_domain = ''other.org''\<rparr>"
    by (simp add: logged_entry_def post_request_def js_or_else_def js_or_def truthy_def)
  have r: "fst (validate ?T 5 no_validate_faults ?req sample_world) = rejected"
    by (simp add: sample_validate_rejected)
  have w: "emails sample_world = []" "history sample_world = []"
    "\<not> (cachedClient sample_world \<and> cachedDb sample_world)"
    by (simp_all add: sample_world_def)
  note A = validate_logs_before_gate
          [where req = ?req and email = "''user@Other.org''"
             and d = "''other.org''" and w = sample_world and fs = no_validate_faults
             and t = ?T and now = 5
             and x = "Some (MongoError ''write failed'')" and y = None]
  note B = validate_logs_before_gate
          [where req = "post_request ''user at other.org''" and email = "''user at other.org''"
             and d = "''other.org''" and w = sample_world and fs = no_validate_faults
             and t = ?T and now = 5 and x = None and y = None]
  from A b e d c have
    a1: "emails (snd (validate ?T 5 no_validate_faults ?req sample_world))
           = emails sample_world @ [logged_entry 5 ?req ''user@Other.org'' ''other.org'']"
    and a2: "history (snd (validate ?T 5 no_validate_faults ?req sample_world))
           = history sample_world
             @ (if cachedClient sample_world \<and> cachedDb sample_world then [] else [Connect])
             @ [InsertEmail (logged_entry 5 ?req ''user@Other.org'' ''other.org''),
                FindDomain ''other.org'']"
    and a3: "fst (validate ?T 5
                    (no_validate_faults\<lparr>log_insert := Some (MongoError ''write failed'')\<rparr>)
                    ?req sample_world)
           = fst (validate ?T 5 no_validate_faults ?req sample_world)"
    by blast+
  from B n have
    b1: "snd (validate ?T 5 no_validate_faults (post_request ''user at other.org'') sample_world)
           = sample_world"
    by blast
  from e d l r a1 a2 a3 b1 w show ?thesis by simp
qed

section \<open>Rejection and the token store\<close>

lemma find_filter_keep:
  "find P xs = Some x \<Longrightarrow> Q x \<Longrightarrow> find P (filter Q xs) = Some x"
  by (induction xs) (auto split: if_splits)

lemma ttl_sweep_live:
  assumes "find (\<lambda>x. t_token x = token) (tokens w) = Some doc" and "now \<le> t_expireAt doc"
  shows "find (\<lambda>x. t_token x = token) (tokens (ttl_sweep now w)) = Some doc"
  using assms by (simp add: ttl_sweep_def find_filter_keep)

lemma ttl_sweep_frame: "db (ttl_sweep now w) = db w"
  by (simp add: ttl_sweep_def)

text \<open>
  C9. Rejection preserves the token. For a well-formed e-mail whose domain is not in the
  allowed set and a token with a record in the store: two validations in a row are both
  answered with the rejection, whatever the backend does, and leave the token store as it
  was; afterwards, the background expiry having run no later than the record's
  \<open>expireAt\<close>, a redeem of the token is answered with the signed redirect when the store
  and the presigner answer, and an e-mail of an allowed domain is accepted when the gate's
  calls succeed.
\<close>

theorem rejection_preserves_token:
  assumes "body req = Some (Some email)" and "emailRegex_test email"
    and "getDomainFromEmail email = Inr d"
    and "find (\<lambda>r. d_domain r = d) (allowed_domains w) = None"
    and "find (\<lambda>x. t_token x = token) (tokens w) = Some doc" and "token \<noteq> []"
    and "now3 \<le> t_expireAt doc"
    and "w1 = snd (validate t now1 fs1 req w)" and "w2 = snd (validate t now2 fs2 req w1)"
  shows "fst (validate t now1 fs1 req w) = rejected
     \<and> fst (validate t now2 fs2 req w1) = rejected
     \<and> tokens w1 = tokens w \<and> tokens w2 = tokens w
     \<and> (query_token rq = Some token \<and> (db w \<or> dl_connect dfs = None) \<and> dl_find dfs = None
          \<and> dl_delete dfs = None \<and> getSignedUrl ev (command ev random) 60 = Inr url
        \<longrightarrow> fst (download ev random dfs rq (ttl_sweep now3 w2)) = Redirect 302 url)
     \<and> (body req' = Some (Some email') \<and> emailRegex_test email'
          \<and> getDomainFromEmail email' = Inr d'
          \<and> find (\<lambda>r. d_domain r = d') (allowed_domains w) \<noteq> None
          \<and> gate_connect fs3 = None \<and> gate_find fs3 = None
        \<longrightarrow> (\<exists>redirectUrl. generateRedirectUrl t email' = Inr redirectUrl
               \<and> fst (validate t now3 fs3 req' (ttl_sweep now3 w2)) = Validated redirectUrl))"
proof -
  from emailRegex_redirect[OF assms(2)] obtain url0 where
    u0: "generateRedirectUrl t email = Inr url0" by blast
  have f1: "tokens w1 = tokens w" "db w1 = db w" "allowed_domains w1 = allowed_domains w"
    unfolding assms(8) using validate_frame[of t now1 fs1 req w] by simp_all
  have f2: "tokens w2 = tokens w" "db w2 = db w" "allowed_domains w2 = allowed_domains w"
    unfolding assms(9) using validate_frame[of t now2 fs2 req w1] f1 by simp_all
  have r1: "fst (validate t now1 fs1 req w) = rejected"
    using assms(4) by (simp add: validate_response[OF assms(1,2,3) u0])
  have r2: "fst (validate t now2 fs2 req w1) = rejected"
    using assms(4) f1 by (simp add: validate_response[OF assms(1,2,3) u0])
  have live: "find (\<lambda>x. t_token x = token) (tokens (ttl_sweep now3 w2)) = Some doc"
    using ttl_sweep_live[of token w2 doc now3] assms(5,7) f2 by simp
  have redeem: "fst (download ev random dfs rq (ttl_sweep now3 w2)) = Redirect 302 url"
    if "query_token rq = Some token" "db w \<or> dl_connect dfs = None" "dl_find dfs = None"
       "dl_delete dfs = None" "getSignedUrl ev (command ev random) 60 = Inr url"
    using that live assms(6) f2
    by (intro download_live[where doc = doc]) (simp_all add: truthy_def ttl_sweep_frame)
  have again: "\<exists>redirectUrl. generateRedirectUrl t email' = Inr redirectUrl
               \<and> fst (validate t now3 fs3 req' (ttl_sweep now3 w2)) = Validated redirectUrl"
    if "body req' = Some (Some email')" "emailRegex_test email'"
       "getDomainFromEmail email' = Inr d'"
       "find (\<lambda>r. d_domain r = d') (allowed_domains w) \<noteq> None"
       "gate_connect fs3 = None" "gate_find fs3 = None"
  proof -
    from emailRegex_redirect[OF that(2)] obtain u where
      u: "generateRedirectUrl t email' = Inr u" by blast
    have "allowed_domains (ttl_sweep now3 w2) = allowed_domains w"
      using f2 by (simp add: ttl_sweep_def)
    with that(4,5,6) have "fst (validate t now3 fs3 req' (ttl_sweep now3 w2)) = Validated u"
      by (simp add: validate_response[OF that(1,2,3) u])
    with u show ?thesis by blast
  qed
  from r1 r2 f1(1) f2(1) redeem again show ?thesis by blast
qed
theorem rejection_preserves_token_witness:
  "emailRegex_test ''user@Other.org''
   \<and> getDomainFromEmail ''user@Other.org'' = Inr ''other.org''
   \<and> find (\<lambda>r. d_domain r = ''other.org'') (allowed_domains issued_world) = None
   \<and> find (\<lambda>x. t_token x = ''abc123'') (tokens issued_world)
       = Some \<lparr>t_token = ''abc123'', t_createdAt = 0, t_expireAt = 60000\<rparr>
   \<and> fst (validate ''https://{domain}.example.net/x?e={email}'' 5 no_validate_faults
            (post_request ''user@Other.org'') issued_world) = rejected
   \<and> fst (validate ''https://{domain}.example.net/x?e={email}'' 6 no_validate_faults
            (post_request ''user@Other.org'')
            (snd (validate ''https://{domain}.example.net/x?e={email}'' 5 no_validate_faults
                    (post_request ''user@Other.org'') issued_world))) = rejected
   \<and> tokens (snd (validate ''https://{domain}.example.net/x?e={email}'' 6 no_validate_faults
            (post_request ''user@Other.org'')
            (snd (validate ''https://{domain}.example.net/x?e={email}'' 5 no_validate_faults
                    (post_request ''user@Other.org'') issued_world)))) = tokens issued_world
   \<and> fst (download sample_env 42 no_download_faults (get_request ''abc123'')
            (ttl_sweep 30000
               (snd (validate ''https://{domain}.example.net/x?e={email}'' 6 no_validate_faults
                  (post_request ''user@Other.org'')
                  (snd (validate ''https://{domain}.example.net/x?e={email}'' 5
                          no_validate_faults (post_request ''user@Other.org'') issued_world))))))
       = Redirect 302 (''https://r2.example/Acrobat_Reader_V112.msi?X-Amz-Expires=60''
           @ ''&response-content-disposition=attachment; filename='' @ [CHR 0x22]
           @ ''Acrobat_Reader_V112_0042.msi'' @ [CHR 0x22])
   \<and> fst (validate ''https://{domain}.example.net/x?e={email}'' 30000 no_validate_faults
            (post_request ''user@mail.acme.co'')
            (ttl_sweep 30000
               (snd (validate ''https://{domain}.example.net/x?e={email}'' 6 no_validate_faults
                  (post_request ''user@Other.org'')
                  (snd (validate ''https://{domain}.example.net/x?e={email}'' 5
                          no_validate_faults (post_request ''user@Other.org'') issued_world))))))
       = Validated ''https://acme.example.net/x?e=user@mail.acme.co''"
proof -
  let ?T = "''https://{domain}.example.net/x?e={email}''"
  let ?bad = "post_request ''user@Other.org''"
  let ?doc = "\<lparr>t_token = ''abc123'', t_createdAt = 0, t_expireAt = 60000\<rparr>"
  have h1: "body ?bad = Some (Some ''user@Other.org'')" by (simp add: post_request_def)
  have h2: "emailRegex_test ''user@Other.org''" by (simp add: verify_eval)
  have h3: "getDomainFromEmail ''user@Other.org'' = Inr ''other.org''"
    by (simp add: verify_eval string_eval)
  have h4: "find (\<lambda>r. d_domain r = ''other.org'') (allowed_domains issued_world) = None"
    by (simp add: handler_eval sample_eval)
  have h5: "find (\<lambda>x. t_token x = ''abc123'') (tokens issued_world) = Some ?doc"
    by (simp add: handler_eval sample_eval)
  have h6: "''abc123'' \<noteq> []" by simp
  have h7: "(30000::nat) \<le> t_expireAt ?doc" by simp
  have g1: "query_token (get_request ''abc123'') = Some ''abc123''" by (simp add: get_request_def)
  have g2: "getSignedUrl sample_env (command sample_env 42) 60
              = Inr (''https://r2.example/Acrobat_Reader_V112.msi?X-Amz-Expires=60''
                     @ ''&response-content-disposition=attachment; filename='' @ [CHR 0x22]
                     @ ''Acrobat_Reader_V112_0042.msi'' @ [CHR 0x22])"
    by (simp add: handler_eval sample_eval string_eval)
  have g3: "db issued_world" by (simp add: handler_eval sample_eval)
  have v1: "body (post_request ''user@mail.acme.co'') = Some (Some ''user@mail.acme.co'')"
    by (simp add: post_request_def)
  have v2: "emailRegex_test ''user@mail.acme.co''" by (simp add: verify_eval)
  have v3: "getDomainFromEmail ''user@mail.acme.co'' = Inr ''mail.acme.co''"
    by (simp add: verify_eval string_eval)
  have v4: "find (\<lambda>r. d_domain r = ''mail.acme.co'') (allowed_domains issued_world) \<noteq> None"
    by (simp add: handler_eval sample_eval)
  have v5: "generateRedirectUrl ?T ''user@mail.acme.co''
              = Inr ''https://acme.example.net/x?e=user@mail.acme.co''"
    by (rule generateRedirectUrl_example)
  note T = rejection_preserves_token
             [OF h1 h2 h3 h4 h5 h6 h7 refl refl,
              where t = ?T and ?now1.0 = 5 and ?fs1.0 = no_validate_faults and ?now2.0 = 6
                and ?fs2.0 = no_validate_faults and rq = "get_request ''abc123''"
                and dfs = no_download_faults and ev = sample_env and random = 42
                and req' = "post_request ''user@mail.acme.co''"
                and email' = "''user@mail.acme.co''" and d' = "''mail.acme.co''"
                and ?fs3.0 = no_validate_faults]
  from T g1 g2 g3 v1 v2 v3 v4 v5 h2 h3 h4 h5 show ?thesis
    by (simp add: no_download_faults_def no_validate_faults_def)
qed

section \<open>Validation and redemption are independent\<close>











section \<open>Redemption is destructive\<close>

lemma find_None_delete_first:
  "find P xs = None \<Longrightarrow> find P (delete_first Q xs) = None"
  by (induction xs) (auto split: if_splits)

lemma find_None_filter: "find P xs = None \<Longrightarrow> find P (filter Q xs) = None"
  by (induction xs) (auto split: if_splits)

lemma delete_first_last_match:
  "length (filter P xs) \<le> 1 \<Longrightarrow> find P (delete_first P xs) = None"
proof (induction xs)
  case Nil
  then show ?case by simp
next
  case (Cons x xs)
  show ?case
  proof (cases "P x")
    case True
    with Cons.prems have "filter P xs = []" by simp
    then have "find P xs = None" by (simp add: find_None_iff filter_empty_conv)
    with True show ?thesis by simp
  next
    case False
    with Cons show ?thesis by simp
  qed
qed

lemma download_consumes:
  assumes "fst (download ev random fs req w) = Redirect n url"
    and "query_token req = Some token"
    and "length (filter (\<lambda>x. t_token x = token) (tokens w)) \<le> 1"
  shows "find (\<lambda>x. t_token x = token) (tokens (snd (download ev random fs req w))) = None
     \<and> db (snd (download ev random fs req w))"
proof -
  from download_Redirect[OF assms(1)] assms(2) have
    "tokens (snd (download ev random fs req w))
       = delete_first (\<lambda>x. t_token x = token) (tokens w)" by simp
  moreover have "db (snd (download ev random fs req w))"
    using assms(1)
    by (auto simp: download_def connectToDB_def findOne_token_def deleteOne_token_def
        sign_redirect_def called_def Let_def
        split: if_splits option.splits prod.splits sum.splits)
  ultimately show ?thesis using delete_first_last_match[OF assms(3)] by simp
qed

lemma download_keeps_absent:
  assumes "find (\<lambda>x. t_token x = token) (tokens w) = None" and "db w"
  shows "find (\<lambda>x. t_token x = token) (tokens (snd (download ev random fs req w))) = None
     \<and> db (snd (download ev random fs req w))"
  using assms
  by (auto simp: download_def connectToDB_def findOne_token_def deleteOne_token_def
      sign_redirect_def called_def Let_def find_None_delete_first
      split: if_splits option.splits prod.splits sum.splits)

lemma store_token_keeps_absent:
  assumes "find (\<lambda>x. t_token x = token) (tokens w) = None" and "db w"
    and "query_token req \<noteq> Some token"
  shows "find (\<lambda>x. t_token x = token) (tokens (snd (store_token created now fs req w))) = None
     \<and> db (snd (store_token created now fs req w))"
  using assms
  by (auto simp: store_token_def connectToDB_def insertOne_token_def createIndex_def
      called_def Let_def truthy_def find_None_iff
      split: if_splits option.splits prod.splits sum.splits)

lemma snd_step:
  "snd (step cfg (now, StoreToken now2 sfs req) w) = snd (store_token now now2 sfs req w)"
  "snd (step cfg (now, Validate vfs req) w) = snd (validate (redirect_template cfg) now vfs req w)"
  "snd (step cfg (now, Download random dfs req) w) = snd (download (backend cfg) random dfs req w)"
  "snd (step cfg (now, Sweep) w) = ttl_sweep now w"
  by (simp_all add: case_prod_beta)

lemma snd_run_Cons: "snd (run cfg (e # es) w) = snd (run cfg es (snd (step cfg e w)))"
  by (simp add: case_prod_beta)

lemma step_keeps_absent:
  assumes "find (\<lambda>x. t_token x = token) (tokens w) = None" and "db w"
    and "\<not> issues token e"
  shows "find (\<lambda>x. t_token x = token) (tokens (snd (step cfg e w))) = None
     \<and> db (snd (step cfg e w))"
proof (cases e)
  case (Pair now ev)
  show ?thesis
  proof (cases ev)
    case (StoreToken now2 fs req)
    with Pair assms(3) have "query_token req \<noteq> Some token" by (simp add: issues_def)
    from store_token_keeps_absent[OF assms(1,2) this] Pair StoreToken show ?thesis
      by (simp only: snd_step)
  next
    case (Validate fs req)
    with Pair assms(1,2) validate_frame[of "redirect_template cfg" now fs req w] show ?thesis
      by (simp only: snd_step)
  next
    case (Download random fs req)
    with Pair download_keeps_absent[OF assms(1,2)] show ?thesis
      by (simp only: snd_step)
  next
    case Sweep
    with Pair assms(1,2) show ?thesis by (simp add: ttl_sweep_def find_None_filter)
  qed
qed

lemma run_keeps_absent:
  "find (\<lambda>x. t_token x = token) (tokens w) = None \<Longrightarrow> db w \<Longrightarrow>
   list_all (\<lambda>e. \<not> issues token e) es \<Longrightarrow>
   find (\<lambda>x. t_token x = token) (tokens (snd (run cfg es w))) = None \<and> db (snd (run cfg es w))"
proof (induction es arbitrary: w)
  case Nil
  then show ?case by simp
next
  case (Cons e es)
  from Cons.prems have ne: "\<not> issues token e" and rest: "list_all (\<lambda>e. \<not> issues token e) es"
    by simp_all
  from step_keeps_absent[OF Cons.prems(1,2) ne, of cfg] have
    "find (\<lambda>x. t_token x = token) (tokens (snd (step cfg e w))) = None"
    "db (snd (step cfg e w))" by simp_all
  from Cons.IH[OF this rest] show ?case by (simp only: snd_run_Cons)
qed

text \<open>
  C2, as the claim states it, fails: the same value issued twice leaves two records, a
  redeem deletes one of them, and the second redeem of the value succeeds too.
\<close>

theorem second_redeem_succeeds_after_two_issues:
  "fst (run sample_config
     [(0, StoreToken 0 no_store_faults (get_request ''abc123'')),
      (10, StoreToken 10 no_store_faults (get_request ''abc123'')),
      (20, Download 1 no_download_faults (get_request ''abc123'')),
      (30, Download 2 no_download_faults (get_request ''abc123''))]
     sample_world)
   = [Some (Empty 204), Some (Empty 204),
      Some (Redirect 302 (''https://r2.example/Acrobat_Reader_V112.msi?X-Amz-Expires=60''
           @ ''&response-content-disposition=attachment; filename='' @ [CHR 0x22]
           @ ''Acrobat_Reader_V112_0001.msi'' @ [CHR 0x22])),
      Some (Redirect 302 (''https://r2.example/Acrobat_Reader_V112.msi?X-Amz-Expires=60''
           @ ''&response-content-disposition=attachment; filename='' @ [CHR 0x22]
           @ ''Acrobat_Reader_V112_0002.msi'' @ [CHR 0x22]))]"
  by (simp add: handler_eval sample_eval string_eval)

text \<open>
  C2, amended. When at most one record of the store carries the value (it was issued
  once), then after a redeem of the value has succeeded, a later redeem of the same value
  never succeeds, whatever requests and expiry sweeps come in between, as long as none of
  them issues the value again: it is answered 403, \<open>Invalid or expired token.\<close>, or, when
  the lookup itself throws, the handler rejects with that error.
\<close>

theorem second_redeem_fails:
  assumes "length (filter (\<lambda>x. t_token x = token) (tokens w)) \<le> 1"
    and "query_token req = Some token"
    and "fst (download (backend cfg) random1 fs1 req w) = Redirect 302 url"
    and "list_all (\<lambda>e. \<not> issues token e) es"
    and "query_token req' = Some token"
  shows "fst (download (backend cfg) random2 fs2 req'
                (snd (run cfg es (snd (download (backend cfg) random1 fs1 req w)))))
         = (case dl_find fs2 of
              None \<Rightarrow> Text 403 ''Invalid or expired token.''
            | Some e \<Rightarrow> Unhandled e)"
proof -
  let ?w1 = "snd (download (backend cfg) random1 fs1 req w)"
  let ?w2 = "snd (run cfg es ?w1)"
  from download_consumes[OF assms(3,2,1)] have
    "find (\<lambda>x. t_token x = token) (tokens ?w1) = None" "db ?w1" by simp_all
  from run_keeps_absent[OF this assms(4), of cfg] have
    absent: "find (\<lambda>x. t_token x = token) (tokens ?w2) = None" and conn: "db ?w2" by simp_all
  from download_Redirect[OF assms(3)] assms(2) have "token \<noteq> []" by (simp add: truthy_def)
  with assms(5) have tr: "truthy (query_token req')" by (simp add: truthy_def)
  from absent assms(5) have "find (\<lambda>d. t_token d = the (query_token req')) (tokens ?w2) = None"
    by simp
  from download_absent[OF tr this, of "backend cfg" random2 fs2] conn show ?thesis by simp
qed

theorem second_redeem_fails_witness:
  "length (filter (\<lambda>x. t_token x = ''abc123'') (tokens issued_world)) \<le> 1
   \<and> fst (download sample_env 1 no_download_faults (get_request ''abc123'') issued_world)
       = Redirect 302 (''https://r2.example/Acrobat_Reader_V112.msi?X-Amz-Expires=60''
           @ ''&response-content-disposition=attachment; filename='' @ [CHR 0x22]
           @ ''Acrobat_Reader_V112_0001.msi'' @ [CHR 0x22])
   \<and> fst (download sample_env 2 no_download_faults (get_request ''abc123'')
            (snd (run sample_config
                    [(40, Sweep),
                     (50, StoreToken 50 no_store_faults (get_request ''other'')),
                     (60, Validate no_validate_faults (post_request ''user@mail.acme.co''))]
                    (snd (download sample_env 1 no_download_faults (get_request ''abc123'')
                            issued_world)))))
       = Text 403 ''Invalid or expired token.''"
proof -
  let ?url = "''https://r2.example/Acrobat_Reader_V112.msi?X-Amz-Expires=60''
           @ ''&response-content-disposition=attachment; filename='' @ [CHR 0x22]
           @ ''Acrobat_Reader_V112_0001.msi'' @ [CHR 0x22]"
  let ?es = "[(40, Sweep),
              (50, StoreToken 50 no_store_faults (get_request ''other'')),
              (60, Validate no_validate_faults (post_request ''user@mail.acme.co''))]"
  have b: "backend sample_config = sample_env" by (simp add: sample_config_def)
  have h1: "length (filter (\<lambda>x. t_token x = ''abc123'') (tokens issued_world)) \<le> 1"
    by (simp add: handler_eval sample_eval)
  have h2: "query_token (get_request ''abc123'') = Some ''abc123''"
    by (simp add: get_request_def)
  have h3: "fst (download (backend sample_config) 1 no_download_faults (get_request ''abc123'')
                   issued_world) = Redirect 302 ?url"
    by (simp add: handler_eval sample_eval string_eval)
  have h4: "list_all (\<lambda>e. \<not> issues ''abc123'' e) ?es"
    by (simp add: issues_def get_request_def)
  have f: "dl_find no_download_faults = None" by (simp add: no_download_faults_def)
  from second_redeem_fails[OF h1 h2 h3 h4 h2, of 2 no_download_faults] h1 h3 f b
  show ?thesis by simp
qed

section \<open>Expiry\<close>

text \<open>
  C3, as the claim states it, fails: a token issued with both clock readings 0 has
  \<open>createdAt\<close> 0 and \<open>expireAt\<close> 60000; with no expiry sweep in between, a redeem at 60001
  finds the record and succeeds.
\<close>

theorem expired_token_redeemed:
  "run sample_config
     [(0, StoreToken 0 no_store_faults (get_request ''abc123'')),
      (60001, Download 42 no_download_faults (get_request ''abc123''))]
     sample_world
   = ([Some (Empty 204),
       Some (Redirect 302 (''https://r2.example/Acrobat_Reader_V112.msi?X-Amz-Expires=60''
           @ ''&response-content-disposition=attachment; filename='' @ [CHR 0x22]
           @ ''Acrobat_Reader_V112_0042.msi'' @ [CHR 0x22]))],
      sample_world\<lparr>db := True, tokens := [],
        history := [ConnectDB,
                    InsertToken \<lparr>t_token = ''abc123'', t_createdAt = 0, t_expireAt = 60000\<rparr>,
                    CreateIndex, FindToken ''abc123'', DeleteToken ''abc123'',
                    Sign (command sample_env 42) 60]\<rparr>)"
  by (simp add: handler_eval sample_eval string_eval)

lemma store_token_issued:
  assumes "fst (store_token created t0 sfs req w) = Empty 204"
    and "query_token req = Some token"
  shows "tokens (snd (store_token created t0 sfs req w))
           = tokens w @ [\<lparr>t_token = token, t_createdAt = created, t_expireAt = t0 + 60 * 1000\<rparr>]
     \<and> db (snd (store_token created t0 sfs req w))"
  using assms
  by (auto simp: store_token_def connectToDB_def insertOne_token_def createIndex_def
      called_def Let_def
      split: if_splits option.splits prod.splits sum.splits)

lemma find_append_None:
  "find P xs = None \<Longrightarrow> find P (xs @ ys) = find P ys"
  by (induction xs) (auto split: if_splits)

text \<open>
  C3, amended. The handler of download.js does not compare \<open>expireAt\<close> with the clock:
  expiry is enforced by the store's background expiry alone. A value issued once gets a
  record whose \<open>expireAt\<close> is 60000 after the reading \<open>t0\<close> of \<open>Date.now()\<close>, while
  \<open>createdAt\<close> is the handler's earlier, separate reading of the clock. Once a sweep has
  run after \<open>t0 + 60000\<close>, a redeem is answered 403 (or rejects, when the lookup throws).
  After a sweep no later than \<open>t0 + 60000\<close>, and as long as no sweep has run at all, the
  record is still there and a redeem is answered with the signed redirect, whatever the
  clock reads.
\<close>

theorem expired_token_rejected_after_sweep:
  assumes "fst (store_token created t0 sfs req w) = Empty 204"
    and "query_token req = Some token"
    and "find (\<lambda>x. t_token x = token) (tokens w) = None"
    and "t0 + 60 * 1000 < now"
    and "early \<le> t0 + 60 * 1000"
    and "w1 = snd (store_token created t0 sfs req w)"
  shows "tokens w1
           = tokens w @ [\<lparr>t_token = token, t_createdAt = created, t_expireAt = t0 + 60 * 1000\<rparr>]
     \<and> fst (download ev random dfs req (ttl_sweep now w1))
         = (case dl_find dfs of
              None \<Rightarrow> Text 403 ''Invalid or expired token.''
            | Some e \<Rightarrow> Unhandled e)
     \<and> (dl_find dfs = None \<and> dl_delete dfs = None
          \<and> getSignedUrl ev (command ev random) 60 = Inr url
        \<longrightarrow> fst (download ev random dfs req w1) = Redirect 302 url
           \<and> fst (download ev random dfs req (ttl_sweep early w1)) = Redirect 302 url)"
proof -
  let ?doc = "\<lparr>t_token = token, t_createdAt = created, t_expireAt = t0 + 60 * 1000\<rparr>"
  from store_token_issued[OF assms(1,2)] assms(6) have
    tk: "tokens w1 = tokens w @ [?doc]" and conn: "db w1" by simp_all
  from assms(1,2) have tr: "truthy (query_token req)"
    by (auto simp: store_token_def split: if_splits)
  have swept: "find (\<lambda>x. t_token x = token) (tokens (ttl_sweep now w1)) = None"
    using assms(3,4) tk by (simp add: ttl_sweep_def find_None_filter find_append_None)
  have after: "fst (download ev random dfs req (ttl_sweep now w1))
         = (case dl_find dfs of
              None \<Rightarrow> Text 403 ''Invalid or expired token.''
            | Some e \<Rightarrow> Unhandled e)"
    using download_absent[OF tr, of "ttl_sweep now w1" ev random dfs] swept conn assms(2)
    by (simp add: ttl_sweep_frame)
  have present: "find (\<lambda>x. t_token x = token) (tokens w1) = Some ?doc"
    using assms(3) tk by (simp add: find_append_None)
  have kept: "find (\<lambda>x. t_token x = token) (tokens (ttl_sweep early w1)) = Some ?doc"
    using ttl_sweep_live[OF present, of early] assms(5) by simp
  have before: "fst (download ev random dfs req w1) = Redirect 302 url"
    if "dl_find dfs = None" "dl_delete dfs = None"
       "getSignedUrl ev (command ev random) 60 = Inr url"
    using download_live[OF tr _ _ that(1,2,3), of w1 ?doc] present conn assms(2) by simp
  have early: "fst (download ev random dfs req (ttl_sweep early w1)) = Redirect 302 url"
    if "dl_find dfs = None" "dl_delete dfs = None"
       "getSignedUrl ev (command ev random) 60 = Inr url"
    using download_live[OF tr _ _ that(1,2,3), of "ttl_sweep early w1" ?doc] kept conn assms(2)
    by (simp add: ttl_sweep_frame)
  from tk after before early show ?thesis by blast
qed

theorem expired_token_rejected_after_sweep_witness:
  "fst (store_token 0 1 no_store_faults (get_request ''abc123'') sample_world) = Empty 204
   \<and> (1::nat) + 60 * 1000 < 60002 \<and> (60001::nat) \<le> 1 + 60 * 1000
   \<and> tokens (snd (store_token 0 1 no_store_faults (get_request ''abc123'') sample_world))
       = [\<lparr>t_token = ''abc123'', t_createdAt = 0, t_expireAt = 60001\<rparr>]
   \<and> fst (download sample_env 42 no_download_faults (get_request ''abc123'')
            (ttl_sweep 60002
               (snd (store_token 0 1 no_store_faults (get_request ''abc123'') sample_world))))
       = Text 403 ''Invalid or expired token.''
   \<and> fst (download sample_env 42 no_download_faults (get_request ''abc123'')
            (ttl_sweep 60001
               (snd (store_token 0 1 no_store_faults (get_request ''abc123'') sample_world))))
       = Redirect 302 (''https://r2.example/Acrobat_Reader_V112.msi?X-Amz-Expires=60''
           @ ''&response-content-disposition=attachment; filename='' @ [CHR 0x22]
           @ ''Acrobat_Reader_V112_0042.msi'' @ [CHR 0x22])
   \<and> fst (download sample_env 42 no_download_faults (get_request ''abc123'')
            (snd (store_token 0 1 no_store_faults (get_request ''abc123'') sample_world)))
       = Redirect 302 (''https://r2.example/Acrobat_Reader_V112.msi?X-Amz-Expires=60''
           @ ''&response-content-disposition=attachment; filename='' @ [CHR 0x22]
           @ ''Acrobat_Reader_V112_0042.msi'' @ [CHR 0x22])"
proof -
  let ?url = "''https://r2.example/Acrobat_Reader_V112.msi?X-Amz-Expires=60''
           @ ''&response-content-disposition=attachment; filename='' @ [CHR 0x22]
           @ ''Acrobat_Reader_V112_0042.msi'' @ [CHR 0x22]"
  have h1: "fst (store_token 0 1 no_store_faults (get_request ''abc123'') sample_world)
              = Empty 204"
    by (simp add: handler_eval sample_eval)
  have h2: "query_token (get_request ''abc123'') = Some ''abc123''"
    by (simp add: get_request_def)
  have h3: "find (\<lambda>x. t_token x = ''abc123'') (tokens sample_world) = None"
    by (simp add: sample_world_def)
  have h4: "(1::nat) + 60 * 1000 < 60002" by simp
  have h5: "(60001::nat) \<le> 1 + 60 * 1000" by simp
  have g: "dl_find no_download_faults = None" "dl_delete no_download_faults = None"
    by (simp_all add: no_download_faults_def)
  have s: "getSignedUrl sample_env (command sample_env 42) 60 = Inr ?url"
    by (simp add: handler_eval sample_eval string_eval)
  have e: "tokens sample_world = []" by (simp add: sample_world_def)
  from expired_token_rejected_after_sweep
         [OF h1 h2 h3 h4 h5 refl, of sample_env 42 no_download_faults ?url] h1 g s e
  show ?thesis by simp
qed

section \<open>Two redemptions in flight\<close>

lemma both_redeemed:
  assumes "query_token reqA = Some token" and "query_token reqB = Some token"
    and "token \<noteq> []"
    and "find (\<lambda>x. t_token x = token) (tokens w) = Some doc" and "db w"
    and "rd_faults a = no_download_faults" and "rd_faults b = no_download_faults"
    and "getSignedUrl ev (command ev (rd_random a)) 60 = Inr urlA"
    and "getSignedUrl ev (command ev (rd_random b)) 60 = Inr urlB"
  shows "\<exists>w'. interleave ev a b [True, True, False, False, True, False, True, False]
                 (Start reqA, Start reqB, w)
               = (Done (Redirect 302 urlA), Done (Redirect 302 urlB), w')"
  using assms
  by (simp add: connectToDB_def findOne_token_def deleteOne_token_def sign_redirect_def
      called_def truthy_def no_download_faults_def)

lemma one_after_the_other:
  "interleave sample_env \<lparr>rd_random = 1, rd_faults = no_download_faults\<rparr>
      \<lparr>rd_random = 2, rd_faults = no_download_faults\<rparr>
      [True, True, True, True, False, False, False, False]
      (Start (get_request ''abc123''), Start (get_request ''abc123''), issued_world)
   = (Done (Redirect 302 (''https://r2.example/Acrobat_Reader_V112.msi?X-Amz-Expires=60''
           @ ''&response-content-disposition=attachment; filename='' @ [CHR 0x22]
           @ ''Acrobat_Reader_V112_0001.msi'' @ [CHR 0x22])),
      Done (Text 403 ''Invalid or expired token.''),
      issued_world\<lparr>tokens := [],
        history := history issued_world
          @ [FindToken ''abc123'', DeleteToken ''abc123'', Sign (command sample_env 1) 60,
             FindToken ''abc123'']\<rparr>)"
  by (simp add: handler_eval sample_eval string_eval)

text \<open>
  C1. The claim: the find and the delete of a redemption are one atomic operation, so of
  two redemptions of a token issued once exactly one succeeds. The code departs from it:
  \<open>findOne\<close> and \<open>deleteOne\<close> are two calls with an \<open>await\<close> between them. With one record
  of \<open>abc123\<close> in the store and two requests A and B scheduled as connect A, find A,
  connect B, find B, delete A, delete B, sign A, sign B, both finds see the record and
  both requests are answered with a signed redirect. The same holds for every token with
  a record in the store (\<open>both_redeemed\<close>); one after the other, the two requests get one
  redirect and one 403 (\<open>one_after_the_other\<close>).
\<close>

theorem double_spend:
  "tokens issued_world = [\<lparr>t_token = ''abc123'', t_createdAt = 0, t_expireAt = 60000\<rparr>]
   \<and> interleave sample_env \<lparr>rd_random = 1, rd_faults = no_download_faults\<rparr>
      \<lparr>rd_random = 2, rd_faults = no_download_faults\<rparr>
      [True, True, False, False, True, False, True, False]
      (Start (get_request ''abc123''), Start (get_request ''abc123''), issued_world)
   = (Done (Redirect 302 (''https://r2.example/Acrobat_Reader_V112.msi?X-Amz-Expires=60''
           @ ''&response-content-disposition=attachment; filename='' @ [CHR 0x22]
           @ ''Acrobat_Reader_V112_0001.msi'' @ [CHR 0x22])),
      Done (Redirect 302 (''https://r2.example/Acrobat_Reader_V112.msi?X-Amz-Expires=60''
           @ ''&response-content-disposition=attachment; filename='' @ [CHR 0x22]
           @ ''Acrobat_Reader_V112_0002.msi'' @ [CHR 0x22])),
      issued_world\<lparr>tokens := [],
        history := history issued_world
          @ [FindToken ''abc123'', FindToken ''abc123'', DeleteToken ''abc123'',
             DeleteToken ''abc123'', Sign (command sample_env 1) 60,
             Sign (command sample_env 2) 60]\<rparr>)"
  by (simp add: handler_eval sample_eval string_eval)

end
